theory Spec2Isabelle
  imports Complex_Main "HOL-Library.AList"
begin

section \<open>The KEF speaker protocol engine (aiokef.py)\<close>

text \<open>
  A shallow embedding of \<^verbatim>\<open>custom_components/kef/aiokef.py\<close>.

  \<^item> Python integers are \<open>int\<close>; \<open>bytes\<close> is a list of integers, and the constructor
    \<open>bytes([...])\<close> is \<open>bytes_of\<close>, which raises \<open>ValueError\<close> outside \<open>0..255\<close>.
  \<^item> Dictionaries are association lists in insertion order; \<open>d[k] = v\<close> is
    \<open>AList.update\<close> and \<open>d[k]\<close> is \<open>map_of\<close>.
  \<^item> Exceptions are values of type \<open>error\<close>; a computation that touches the socket has
    type \<open>'a io\<close>: it takes the world, and either does not return (\<open>None\<close>) or returns
    an error or a value together with the new world.
  \<^item> The network is a script: the outcome of the k-th connection attempt, the outcome of
    the k-th read, and whether the idle watchdog fires at the k-th suspension. Every
    write and every sleep is appended to \<open>trace\<close>.
  \<^item> A Python \<open>float\<close> is the rational number it denotes. The operations that round
    (\<open>*\<close>, \<open>/\<close>, \<open>+\<close>) are followed by the rounding function \<open>rnd\<close>, a parameter
    of every definition that computes with floats; comparisons and \<open>int(...)\<close> are exact.
  \<^item> A name of the source that starts with an underscore is written without it
    (constants) or with the prefix \<open>u_\<close> (methods): \<open>u_send_message\<close> is
    \<open>_send_message\<close>.
\<close>

subsection \<open>Exceptions and Python helpers\<close>

datatype error =
    AssertionError
  | KeyError
  | IndexError
  | ValueError
  | TypeError
  | UnboundLocalError
  | Exception_query_mismatch
  | Exception_no_ok
  | ConnectionError
  | ConnectionRefusedError string
  | TimeoutError
  | RetryError error

type_synonym bytes = "int list"

text \<open>\<open>str.replace(old, new)\<close>: every non-overlapping occurrence, from the left.\<close>

function replace :: "string \<Rightarrow> string \<Rightarrow> string \<Rightarrow> string" where
  "replace old new s =
     (if old = [] then new @ concat (map (\<lambda>c. c # new) s)
      else if s = [] then []
      else if take (length old) s = old then new @ replace old new (drop (length old) s)
      else hd s # replace old new (tl s))"
  by pat_completeness auto
termination
  by (relation "measure (\<lambda>(old, new, s). length s)") auto

text \<open>\<open>xs[i]\<close>, negative indices counting from the end, \<open>IndexError\<close> out of range.\<close>

definition py_index :: "'a list \<Rightarrow> int \<Rightarrow> error + 'a" where
  "py_index xs i =
     (let j = (if i < 0 then i + int (length xs) else i)
      in if j < 0 \<or> int (length xs) \<le> j then Inl IndexError else Inr (xs ! nat j))"

definition bytes_of :: "int list \<Rightarrow> error + bytes" where
  "bytes_of xs = (if \<forall>x \<in> set xs. 0 \<le> x \<and> x < 256 then Inr xs else Inl ValueError)"

text \<open>\<open>reply.split(sep)\<close> for a one-byte separator: the pieces between separators,
  empty pieces included.\<close>

fun bytes_split :: "int \<Rightarrow> bytes \<Rightarrow> bytes list" where
  "bytes_split sep [] = [[]]"
| "bytes_split sep (x # xs) =
     (if x = sep then [] # bytes_split sep xs
      else (case bytes_split sep xs of [] \<Rightarrow> [[x]] | p # ps \<Rightarrow> (x # p) # ps))"

datatype pynum = PInt int | PFloat rat

text \<open>\<open>int(v)\<close>: truncation towards zero.\<close>

definition py_int :: "pynum \<Rightarrow> int" where
  "py_int v = (case v of PInt i \<Rightarrow> i | PFloat x \<Rightarrow> (if 0 \<le> x then \<lfloor>x\<rfloor> else \<lceil>x\<rceil>))"

text \<open>\<open>max(a, b)\<close> and \<open>min(a, b)\<close> keep the first argument unless the second is
  strictly better.\<close>

definition py_max :: "rat \<Rightarrow> rat \<Rightarrow> rat" where
  "py_max a b = (if a < b then b else a)"

definition py_min :: "rat \<Rightarrow> rat \<Rightarrow> rat" where
  "py_min a b = (if b < a then b else a)"

text \<open>\<open>a or b\<close> on an optional string: \<open>None\<close> and the empty string are falsy.\<close>

definition py_or :: "string option \<Rightarrow> string \<Rightarrow> string" where
  "py_or a b = (case a of None \<Rightarrow> b | Some s \<Rightarrow> if s = [] then b else s)"

subsection \<open>Constants and the source tables\<close>

definition RESPONSE_OK :: int where "RESPONSE_OK = 17"
definition VOLUME_SCALE :: rat where "VOLUME_SCALE = 100"
definition MAX_ATTEMPT_TILL_SUCCESS :: nat where "MAX_ATTEMPT_TILL_SUCCESS = 10"
definition MAX_SEND_MESSAGE_TRIES :: nat where "MAX_SEND_MESSAGE_TRIES = 5"
definition TIMEOUT :: rat where "TIMEOUT = 2"
definition KEEP_ALIVE :: rat where "KEEP_ALIVE = 1"
definition MAX_CONNECTION_RETRIES :: nat where "MAX_CONNECTION_RETRIES = 10"

definition INPUT_SOURCES_20_MINUTES_LR :: "(string \<times> int) list" where
  "INPUT_SOURCES_20_MINUTES_LR =
     [(''Bluetooth'', 9), (''Bluetooth_paired'', 15), (''Aux'', 10),
      (''Opt'', 11), (''Usb'', 12), (''Wifi'', 2)]"

definition STANDBY_OPTIONS :: "int option list" where
  "STANDBY_OPTIONS = [Some 20, Some 60, None]"

text \<open>The dictionary comprehension \<open>{t: code + i * 16 for i, t in enumerate(STANDBY_OPTIONS)}\<close>.\<close>

definition LR_mapping :: "int \<Rightarrow> (int option \<times> int) list" where
  "LR_mapping code =
     fold (\<lambda>(i, t) d. AList.update t (code + int i * 16) d) (enumerate 0 STANDBY_OPTIONS) []"

definition INPUT_SOURCES :: "(string \<times> (int option \<times> int \<times> int) list) list" where
  "INPUT_SOURCES =
     fold (\<lambda>(source, code) d.
             AList.update source
               (fold (\<lambda>(t, LR) m. AList.update t (LR, LR + 64) m) (LR_mapping code) []) d)
          INPUT_SOURCES_20_MINUTES_LR []"

definition INPUT_SOURCES_RESPONSE :: "(int \<times> string \<times> int option \<times> string) list" where
  "INPUT_SOURCES_RESPONSE =
     fold (\<lambda>(source, mapping) d.
             fold (\<lambda>(t, (LR, RL)) d'.
                     AList.update RL (replace ''_paired'' '''' source, t, ''R/L'')
                       (AList.update LR (replace ''_paired'' '''' source, t, ''L/R'') d'))
                  mapping d)
          INPUT_SOURCES []"

text \<open>The lookup \<open>INPUT_SOURCES[source][standby_time][inverse_speaker_mode]\<close> of
  \<open>set_source\<close>; a tuple indexed by a \<open>bool\<close> gives its first component for \<open>False\<close>.\<close>

definition source_code :: "string \<Rightarrow> int option \<Rightarrow> bool \<Rightarrow> error + int" where
  "source_code source standby inv_mode =
     (case map_of INPUT_SOURCES source of
        None \<Rightarrow> Inl KeyError
      | Some mapping \<Rightarrow>
          (case map_of mapping standby of
             None \<Rightarrow> Inl KeyError
           | Some (LR, RL) \<Rightarrow> Inr (if inv_mode then RL else LR)))"

definition SET_START :: int where "SET_START = 83"
definition SET_MID :: int where "SET_MID = 129"
definition GET_MID :: int where "GET_MID = 128"
definition GET_START :: int where "GET_START = 71"
definition SOURCE :: int where "SOURCE = 48"
definition VOL :: int where "VOL = 37"

definition COMMANDS_set_volume :: "int \<Rightarrow> error + bytes" where
  "COMMANDS_set_volume volume = bytes_of [SET_START, VOL, SET_MID, volume]"

definition COMMANDS_set_source :: "int \<Rightarrow> error + bytes" where
  "COMMANDS_set_source i = bytes_of [SET_START, SOURCE, SET_MID, i]"

definition COMMANDS_get_volume :: bytes where
  "COMMANDS_get_volume = [GET_START, VOL, GET_MID]"

definition COMMANDS_get_source :: bytes where
  "COMMANDS_get_source = [GET_START, SOURCE, GET_MID]"

datatype state =
  State (state_source: string) (state_is_on: bool) (state_standby_time: "int option")
        (state_orientation: string)

subsection \<open>Splitting a reply into frames\<close>

text \<open>
  \<open>_parse_response\<close>. Every element of \<open>responses\<close> is \<open>R\<close> followed by a non-empty
  piece, so \<open>r[1]\<close> exists. A message that starts with neither \<open>G\<close> nor \<open>S\<close> falls
  off the end of the function, which returns Python's \<open>None\<close>.
\<close>

definition parse_response :: "bytes \<Rightarrow> bytes \<Rightarrow> error + bytes option" where
  "parse_response message reply =
     (let responses = map (\<lambda>i. 82 # i) (filter (\<lambda>i. i \<noteq> []) (bytes_split 82 reply))
      in case py_index message 0 of
           Inl e \<Rightarrow> Inl e
         | Inr m0 \<Rightarrow>
             if m0 = 71 then
               (case py_index message 1 of
                  Inl e \<Rightarrow> Inl e
                | Inr which \<Rightarrow>
                    (case find (\<lambda>r. py_index r 1 = Inr which) responses of
                       Some r \<Rightarrow> Inr (Some r)
                     | None \<Rightarrow> Inl Exception_query_mismatch))
             else if m0 = 83 then
               (if [82, 17, 255] \<in> set responses then Inr (Some [82, 17, 255])
                else Inl Exception_no_ok)
             else Inr None)"

subsection \<open>The world: socket, watchdog and trace\<close>

datatype conn_event = ConnOk | ConnRefused | ConnBlocking | ConnTimeout | ConnOSError

datatype read_event = Data bytes | ReadTimeout

datatype event = Write bytes | Sleep rat | Backoff

text \<open>
  The outcome of a connection attempt is success or one of the exceptions that
  \<open>open_connection\<close> handles. The outcome of a read is the data that the speaker sends
  in time, or \<open>ReadTimeout\<close>: the speaker sends nothing.

  \<open>is_connected\<close> is \<open>(_reader, _writer) != (None, None)\<close>: the two are set and cleared
  together. \<open>is_online_flag\<close> is the attribute \<open>_is_online\<close>. The time stamps are only
  read by the watchdog. How much time has passed since the time stamp when the
  controller sleeps or backs off is not fixed by the model: whether the watchdog closes
  the connection there is the script \<open>watchdog\<close>. During a read that gets no answer
  it is fixed by the constants, see \<open>u_send_message\<close>.
\<close>

record world =
  conn_script :: "nat \<Rightarrow> conn_event"
  read_script :: "nat \<Rightarrow> read_event"
  watchdog :: "nat \<Rightarrow> bool"
  conn_n :: nat
  read_n :: nat
  tick_n :: nat
  is_connected :: bool
  is_online_flag :: bool
  trace :: "event list"

type_synonym 'a io = "world \<Rightarrow> ((error + 'a) \<times> world) option"

definition io_return :: "'a \<Rightarrow> 'a io" where
  "io_return x = (\<lambda>w. Some (Inr x, w))"

definition io_raise :: "error \<Rightarrow> 'a io" where
  "io_raise e = (\<lambda>w. Some (Inl e, w))"

definition io_lift :: "error + 'a \<Rightarrow> 'a io" where
  "io_lift r = (\<lambda>w. Some (r, w))"

definition io_bind :: "'a io \<Rightarrow> ('a \<Rightarrow> 'b io) \<Rightarrow> 'b io" where
  "io_bind m f =
     (\<lambda>w. case m w of
            None \<Rightarrow> None
          | Some (Inl e, w') \<Rightarrow> Some (Inl e, w')
          | Some (Inr x, w') \<Rightarrow> f x w')"

text \<open>\<open>_disconnect\<close>, and one tick of \<open>_disconnect_if_passive\<close> at a point where the
  foreground task is suspended for a while.\<close>

definition disconnect :: "world \<Rightarrow> world" where
  "disconnect w = (if is_connected w then w\<lparr>is_connected := False\<rparr> else w)"

definition suspend :: "world \<Rightarrow> world" where
  "suspend w =
     (let w' = w\<lparr>tick_n := tick_n w + 1\<rparr>
      in if watchdog w (tick_n w) then disconnect w' else w')"

definition sleep :: "rat \<Rightarrow> world \<Rightarrow> world" where
  "sleep d w = suspend (w\<lparr>trace := trace w @ [Sleep d]\<rparr>)"

definition backoff :: "world \<Rightarrow> world" where
  "backoff w = suspend (w\<lparr>trace := trace w @ [Backoff]\<rparr>)"

text \<open>
  Modelled from the spec: the decorator \<open>retry(stop=stop_after_attempt(n),
  wait=wait_exponential(...))\<close> comes from the library tenacity, which is not part of the
  sources. It is a bounded number of attempts with a wait between two attempts; when
  the last attempt fails, the last error is propagated, wrapped in \<open>RetryError\<close>.
  \<open>retry_left k\<close> has \<open>k\<close> further attempts after the current one.
\<close>

primrec retry_left :: "nat \<Rightarrow> 'a io \<Rightarrow> 'a io" where
  "retry_left 0 f =
     (\<lambda>w. case f w of
            None \<Rightarrow> None
          | Some (Inl e, w') \<Rightarrow> Some (Inl (RetryError e), w')
          | Some (Inr x, w') \<Rightarrow> Some (Inr x, w'))"
| "retry_left (Suc n) f =
     (\<lambda>w. case f w of
            None \<Rightarrow> None
          | Some (Inl e, w') \<Rightarrow> retry_left n f (backoff w')
          | Some (Inr x, w') \<Rightarrow> Some (Inr x, w'))"

definition retry :: "nat \<Rightarrow> 'a io \<Rightarrow> 'a io" where
  "retry n f = retry_left (n - 1) f"

subsection \<open>The communicator\<close>

text \<open>
  The \<open>while\<close> loop of \<open>open_connection\<close>. \<open>BlockingIOError\<close> resets \<open>retries\<close>, so
  the loop need not end: not returning is the value \<open>None\<close>.
\<close>

partial_function (option) open_connection_loop ::
    "nat \<Rightarrow> world \<Rightarrow> ((error + unit) \<times> world) option" where
  "open_connection_loop retries w =
     (if retries < MAX_CONNECTION_RETRIES then
        (case conn_script w (conn_n w) of
           ConnOk \<Rightarrow>
             Some (Inr (),
                   w\<lparr>conn_n := conn_n w + 1, is_connected := True, is_online_flag := True\<rparr>)
         | ConnRefused \<Rightarrow>
             open_connection_loop (retries + 1) (sleep (1 / 2) (w\<lparr>conn_n := conn_n w + 1\<rparr>))
         | ConnBlocking \<Rightarrow>
             open_connection_loop (0 + 1) (sleep 1 (w\<lparr>conn_n := conn_n w + 1\<rparr>))
         | ConnTimeout \<Rightarrow>
             Some (Inl (ConnectionRefusedError ''Speaker is offline.''),
                   w\<lparr>conn_n := conn_n w + 1, is_online_flag := False\<rparr>)
         | ConnOSError \<Rightarrow>
             Some (Inl (ConnectionRefusedError ''Speaker is offline.''),
                   w\<lparr>conn_n := conn_n w + 1, is_online_flag := False\<rparr>))
      else Some (Inl (ConnectionRefusedError ''Connection tries exceeded.''),
                 w\<lparr>is_online_flag := False\<rparr>))"

declare open_connection_loop.simps [code]

definition open_connection :: "unit io" where
  "open_connection =
     (\<lambda>w. if is_connected w then Some (Inr (), w) else open_connection_loop 0 w)"

text \<open>
  \<open>_send_message\<close>. The local variable \<open>data\<close> is bound only when the read returns;
  the \<open>finally\<close> clause returns it in either case, and reading an unbound local raises
  \<open>UnboundLocalError\<close>. A read returns at most 100 bytes.

  \<open>ReadTimeout\<close> is a speaker that sends nothing. The read is then pending, and the
  watchdog runs meanwhile: it wakes every half second and closes the connection once
  more than \<open>_KEEP_ALIVE\<close> seconds have passed since the time stamp, which is set when
  the connection is opened and after a read, so it is no younger than the write. The
  watchdog therefore closes the connection at most \<open>_KEEP_ALIVE + 0.5\<close> seconds after
  the write. When that is before \<open>_TIMEOUT\<close>, the pending read ends with the stream
  and returns \<open>b''\<close>, which is bound to \<open>data\<close>; otherwise \<open>wait_for\<close> raises
  \<open>TimeoutError\<close>, the \<open>except\<close> clause logs it and \<open>data\<close> stays unbound.
\<close>

definition watchdog_closes_first :: bool where
  "watchdog_closes_first \<longleftrightarrow> KEEP_ALIVE + 1 / 2 < TIMEOUT"

definition u_send_message :: "bytes \<Rightarrow> bytes io" where
  "u_send_message message =
     (\<lambda>w. if \<not> is_connected w then Some (Inl AssertionError, w)
          else
            (let w1 = w\<lparr>trace := trace w @ [Write message]\<rparr>;
                 w2 = w1\<lparr>read_n := read_n w + 1\<rparr>;
                 data = (case read_script w (read_n w) of
                           Data d \<Rightarrow> Some (take 100 d)
                         | ReadTimeout \<Rightarrow> if watchdog_closes_first then Some [] else None);
                 w3 = (case read_script w (read_n w) of
                         Data d \<Rightarrow> w2
                       | ReadTimeout \<Rightarrow> if watchdog_closes_first then disconnect w2 else w2)
             in case data of
                  Some d \<Rightarrow> Some (Inr d, w3)
                | None \<Rightarrow> Some (Inl UnboundLocalError, w3)))"

definition send_message_body :: "bytes \<Rightarrow> int io" where
  "send_message_body msg =
     io_bind open_connection (\<lambda>_.
     io_bind (u_send_message msg) (\<lambda>raw_reply.
     io_bind (io_lift (parse_response msg raw_reply)) (\<lambda>parsed.
       case parsed of
         None \<Rightarrow> io_raise TypeError
       | Some r \<Rightarrow> io_lift (py_index r (- 2)))))"

definition send_message :: "bytes \<Rightarrow> int io" where
  "send_message msg = retry MAX_SEND_MESSAGE_TRIES (send_message_body msg)"

subsection \<open>The speaker\<close>

record speaker =
  volume_step :: rat
  maximum_volume :: rat
  standby_time :: "int option"
  inverse_speaker_mode :: bool

definition AsyncKefSpeaker :: "rat \<Rightarrow> rat \<Rightarrow> int option \<Rightarrow> bool \<Rightarrow> error + speaker" where
  "AsyncKefSpeaker vstep vmax standby inv_mode =
     (if standby \<notin> set STANDBY_OPTIONS then Inl ValueError
      else Inr \<lparr>volume_step = vstep, maximum_volume = vmax, standby_time = standby,
                inverse_speaker_mode = inv_mode\<rparr>)"

definition get_state_body :: "state io" where
  "get_state_body =
     io_bind (send_message COMMANDS_get_source) (\<lambda>response.
       let is_on = (response \<le> 128); code = response mod 128
       in case map_of INPUT_SOURCES_RESPONSE code of
            None \<Rightarrow> io_raise ConnectionError
          | Some (source, standby, orientation) \<Rightarrow>
              io_return (State source is_on standby orientation))"

definition get_state :: "state io" where
  "get_state = retry MAX_ATTEMPT_TILL_SUCCESS get_state_body"

definition get_source :: "string io" where
  "get_source = io_bind get_state (\<lambda>state. io_return (state_source state))"

text \<open>The polling loop \<open>for i in range(_MAX_ATTEMPT_TILL_SUCCESS)\<close> of \<open>set_source\<close>,
  followed by its \<open>raise TimeoutError\<close>.\<close>

primrec set_source_poll :: "nat \<Rightarrow> string \<Rightarrow> unit io" where
  "set_source_poll 0 source = io_raise TimeoutError"
| "set_source_poll (Suc n) source =
     io_bind get_source (\<lambda>current_source.
       if current_source = source then io_return ()
       else (\<lambda>w. set_source_poll n source (sleep (1 / 2) w)))"

definition set_source_body :: "speaker \<Rightarrow> string \<Rightarrow> string \<Rightarrow> unit io" where
  "set_source_body spk source st =
     (if source \<notin> fst ` set INPUT_SOURCES then io_raise AssertionError
      else
        io_bind (io_lift (source_code source (standby_time spk) (inverse_speaker_mode spk)))
          (\<lambda>code.
             let i = (if st = ''off'' then code mod 128 + 128 else code mod 128)
             in io_bind (io_lift (COMMANDS_set_source i)) (\<lambda>cmd.
                io_bind (send_message cmd) (\<lambda>response.
                  if response \<noteq> RESPONSE_OK then io_raise ConnectionError
                  else set_source_poll MAX_ATTEMPT_TILL_SUCCESS source))))"

definition set_source :: "speaker \<Rightarrow> string \<Rightarrow> string \<Rightarrow> unit io" where
  "set_source spk source st = retry MAX_ATTEMPT_TILL_SUCCESS (set_source_body spk source st)"

text \<open>\<open>get_volume_and_is_muted\<close>. \<open>send_message\<close> returns an integer or raises, so
  the branch \<open>if volume is None\<close> of the source is never taken.\<close>

definition get_volume_and_is_muted_body :: "(rat \<Rightarrow> rat) \<Rightarrow> bool \<Rightarrow> (pynum \<times> bool) io" where
  "get_volume_and_is_muted_body rnd scale =
     io_bind (send_message COMMANDS_get_volume) (\<lambda>volume.
       let is_muted = (volume \<ge> 128)
       in io_return
            (if scale then PFloat (rnd (of_int volume / VOLUME_SCALE)) else PInt volume,
             is_muted))"

definition get_volume_and_is_muted :: "(rat \<Rightarrow> rat) \<Rightarrow> bool \<Rightarrow> (pynum \<times> bool) io" where
  "get_volume_and_is_muted rnd scale =
     retry MAX_ATTEMPT_TILL_SUCCESS (get_volume_and_is_muted_body rnd scale)"

definition u_set_volume_body :: "int \<Rightarrow> unit io" where
  "u_set_volume_body volume =
     io_bind (io_lift (COMMANDS_set_volume volume)) (\<lambda>cmd.
     io_bind (send_message cmd) (\<lambda>response.
       if response \<noteq> RESPONSE_OK then io_raise ConnectionError else io_return ()))"

definition u_set_volume :: "int \<Rightarrow> unit io" where
  "u_set_volume volume = retry MAX_ATTEMPT_TILL_SUCCESS (u_set_volume_body volume)"

definition get_volume :: "(rat \<Rightarrow> rat) \<Rightarrow> pynum option io" where
  "get_volume rnd =
     io_bind (get_volume_and_is_muted rnd True) (\<lambda>(volume, is_muted).
       io_return (if \<not> is_muted then Some volume else None))"

definition set_volume :: "(rat \<Rightarrow> rat) \<Rightarrow> speaker \<Rightarrow> rat \<Rightarrow> rat io" where
  "set_volume rnd spk val =
     (let volume = py_max 0 (py_min (maximum_volume spk) val)
      in io_bind (u_set_volume (py_int (PFloat (rnd (volume * VOLUME_SCALE))))) (\<lambda>_.
         io_return volume))"

definition is_muted :: "(rat \<Rightarrow> rat) \<Rightarrow> bool io" where
  "is_muted rnd =
     io_bind (get_volume_and_is_muted rnd False) (\<lambda>(_, is_muted). io_return is_muted)"

definition mute :: "(rat \<Rightarrow> rat) \<Rightarrow> unit io" where
  "mute rnd =
     io_bind (get_volume_and_is_muted rnd False) (\<lambda>(volume, _).
       u_set_volume (py_int volume mod 128 + 128))"

definition unmute :: "(rat \<Rightarrow> rat) \<Rightarrow> unit io" where
  "unmute rnd =
     io_bind (get_volume_and_is_muted rnd False) (\<lambda>(volume, _).
       u_set_volume (py_int volume mod 128))"

text \<open>\<open>_change_volume\<close>: \<open>volume\<close> is what \<open>get_volume\<close> returned, \<open>None\<close> when muted.\<close>

definition u_change_volume :: "(rat \<Rightarrow> rat) \<Rightarrow> speaker \<Rightarrow> rat \<Rightarrow> rat io" where
  "u_change_volume rnd spk step =
     io_bind (get_volume rnd) (\<lambda>volume.
     io_bind (is_muted rnd) (\<lambda>muted.
     io_bind (if muted then unmute rnd else io_return ()) (\<lambda>_.
       case volume of
         None \<Rightarrow> io_raise AssertionError
       | Some (PInt i) \<Rightarrow> set_volume rnd spk (rnd (of_int i + step))
       | Some (PFloat x) \<Rightarrow> set_volume rnd spk (rnd (x + step)))))"

definition increase_volume :: "(rat \<Rightarrow> rat) \<Rightarrow> speaker \<Rightarrow> rat io" where
  "increase_volume rnd spk = u_change_volume rnd spk (volume_step spk)"

definition decrease_volume :: "(rat \<Rightarrow> rat) \<Rightarrow> speaker \<Rightarrow> rat io" where
  "decrease_volume rnd spk = u_change_volume rnd spk (- volume_step spk)"

text \<open>
  \<open>is_online\<close>: \<open>pending\<close> is the outcome of the \<open>try\<close> and \<open>except\<close> clauses; the
  \<open>return\<close> in the \<open>finally\<close> clause replaces it.
\<close>

definition is_online :: "bool io" where
  "is_online =
     (\<lambda>w. case open_connection w of
            None \<Rightarrow> None
          | Some (r, w') \<Rightarrow>
              (let pending =
                     (case r of
                        Inl (ConnectionRefusedError m) \<Rightarrow>
                          (if is_online_flag w' then Inl AssertionError else Inr ())
                      | _ \<Rightarrow> r)
               in Some (Inr (is_online_flag w'), w')))"

definition is_on :: "bool io" where
  "is_on = io_bind get_state (\<lambda>state. io_return (state_is_on state))"

text \<open>The loops \<open>for i in range(20)\<close> of \<open>turn_on\<close> and \<open>turn_off\<close>; nothing follows
  them in the source.\<close>

primrec turn_on_poll :: "nat \<Rightarrow> unit io" where
  "turn_on_poll 0 = io_return ()"
| "turn_on_poll (Suc n) =
     io_bind is_on (\<lambda>on.
       if on then io_return () else (\<lambda>w. turn_on_poll n (sleep 1 w)))"

definition turn_on :: "speaker \<Rightarrow> string option \<Rightarrow> unit io" where
  "turn_on spk source =
     io_bind get_state (\<lambda>state.
       if state_is_on state then io_return ()
       else io_bind (set_source spk (py_or source (state_source state)) ''on'') (\<lambda>_.
            turn_on_poll 20))"

primrec turn_off_poll :: "nat \<Rightarrow> unit io" where
  "turn_off_poll 0 = io_return ()"
| "turn_off_poll (Suc n) =
     io_bind is_on (\<lambda>on.
       if \<not> on then io_return () else (\<lambda>w. turn_off_poll n (sleep 1 w)))"

definition turn_off :: "speaker \<Rightarrow> unit io" where
  "turn_off spk =
     io_bind get_state (\<lambda>state.
       if \<not> state_is_on state then io_return ()
       else io_bind (set_source spk (state_source state) ''off'') (\<lambda>_.
            turn_off_poll 20))"

subsection \<open>Worlds for stating and running scenarios\<close>

text \<open>
  The answers of the speaker in the scenarios below are frames of five bytes: \<open>R\<close>,
  the field byte of the query, \<open>0x81\<close>, the value, and a closing byte. The code relies
  on one property of a frame only: the value is its second-to-last byte.
\<close>

text \<open>A script given by its first entries and the entry that follows them for ever.\<close>

definition script :: "'a list \<Rightarrow> 'a \<Rightarrow> nat \<Rightarrow> 'a" where
  "script xs d k = (if k < length xs then xs ! k else d)"

text \<open>A fresh communicator: not connected, nothing sent.\<close>

definition fresh :: "(nat \<Rightarrow> conn_event) \<Rightarrow> (nat \<Rightarrow> read_event) \<Rightarrow> world" where
  "fresh cs rs =
     \<lparr>conn_script = cs, read_script = rs, watchdog = (\<lambda>k. False), conn_n = 0, read_n = 0,
      tick_n = 0, is_connected = False, is_online_flag = False, trace = []\<rparr>"

text \<open>The next connection attempt, if one is needed, succeeds.\<close>

definition connect_ok :: "world \<Rightarrow> bool" where
  "connect_ok w \<longleftrightarrow> is_connected w \<or> conn_script w (conn_n w) = ConnOk"

text \<open>The world after one successful exchange: connected, message written, one read
  consumed.\<close>

definition exchanged :: "bytes \<Rightarrow> world \<Rightarrow> world" where
  "exchanged msg w =
     (if is_connected w then w
      else w\<lparr>conn_n := conn_n w + 1, is_connected := True, is_online_flag := True\<rparr>)
     \<lparr>trace := trace w @ [Write msg], read_n := read_n w + 1\<rparr>"

text \<open>The messages written to the socket, in order.\<close>

definition wire :: "world \<Rightarrow> bytes list" where
  "wire w = concat (map (\<lambda>e. case e of Write m \<Rightarrow> [m] | _ \<Rightarrow> []) (trace w))"

text \<open>A reply in which \<open>_parse_response\<close> finds the acknowledgement frame
  \<open>R 0x11 0xFF\<close> of a set command, within the 100 bytes that are read.\<close>

definition acknowledged :: "bytes \<Rightarrow> bool" where
  "acknowledged reply \<longleftrightarrow>
     [82, 17, 255] \<in> set (map (\<lambda>i. 82 # i) (filter (\<lambda>i. i \<noteq> []) (bytes_split 82 (take 100 reply))))"

text \<open>A speaker muted at level 30: it answers the volume query with the raw byte
  \<open>30 + 128\<close> until it has acknowledged a set command, and with \<open>30\<close> afterwards.\<close>

definition muted_30 :: world where
  "muted_30 =
     fresh (\<lambda>k. ConnOk)
       (script [Data [82, 37, 129, 158, 0], Data [82, 37, 129, 158, 0],
                Data [82, 37, 129, 158, 0], Data [82, 17, 255]]
          (Data [82, 37, 129, 30, 0]))"

text \<open>A speaker on source Aux (standby 20 minutes, L/R) and powered on: it
  acknowledges the first command and answers every later query with a frame whose
  second-to-last byte is the source code \<open>10\<close>.\<close>

definition aux_world :: world where
  "aux_world = fresh (\<lambda>k. ConnOk) (script [Data [82, 17, 255]] (Data [82, 48, 129, 10, 0]))"

text \<open>A controller with \<open>standby_time=20\<close> and \<open>inverse_speaker_mode=False\<close>.\<close>

definition speaker_20_LR :: speaker where
  "speaker_20_LR =
     \<lparr>volume_step = 1 / 20, maximum_volume = 1, standby_time = Some 20,
      inverse_speaker_mode = False\<rparr>"

text \<open>A read that answers the source query with a decodable source code and the given
  power state (a code above 128 means that the speaker is off).\<close>

definition power_reply :: "bool \<Rightarrow> read_event \<Rightarrow> bool" where
  "power_reply on ev =
     (case ev of
        ReadTimeout \<Rightarrow> False
      | Data d \<Rightarrow>
          (case parse_response COMMANDS_get_source (take 100 d) of
             Inr (Some r) \<Rightarrow>
               (case py_index r (- 2) of
                  Inr resp \<Rightarrow>
                    (resp \<le> 128) = on \<and> map_of INPUT_SOURCES_RESPONSE (resp mod 128) \<noteq> None
                | Inl e \<Rightarrow> False)
           | _ \<Rightarrow> False))"

text \<open>One unsuccessful poll of the power state: the query is answered, then the
  controller sleeps for one second.\<close>

definition poll_step :: "world \<Rightarrow> world" where
  "poll_step w = sleep 1 (exchanged COMMANDS_get_source w)"

text \<open>A speaker on source Aux that is on, acknowledges a command, and reports off from
  its fifth answer on; and one that is off and reports on from its sixth answer on.\<close>

definition on_world :: world where
  "on_world =
     fresh (\<lambda>k. ConnOk)
       (script [Data [82, 48, 129, 10, 0], Data [82, 17, 255], Data [82, 48, 129, 10, 0],
                Data [82, 48, 129, 10, 0]]
          (Data [82, 48, 129, 138, 0]))"

definition off_world :: world where
  "off_world =
     fresh (\<lambda>k. ConnOk)
       (script [Data [82, 48, 129, 138, 0], Data [82, 17, 255], Data [82, 48, 129, 138, 0],
                Data [82, 48, 129, 138, 0], Data [82, 48, 129, 138, 0]]
          (Data [82, 48, 129, 10, 0]))"

text \<open>A speaker on source Aux that stays off whatever it is sent, and one that stays
  on: each answers the first state query, acknowledges the command, and then keeps
  reporting the same power state.\<close>

definition never_on_world :: world where
  "never_on_world =
     fresh (\<lambda>k. ConnOk)
       (script [Data [82, 48, 129, 138, 0], Data [82, 17, 255]] (Data [82, 48, 129, 138, 0]))"

definition always_on_world :: world where
  "always_on_world =
     fresh (\<lambda>k. ConnOk)
       (script [Data [82, 48, 129, 10, 0], Data [82, 17, 255]] (Data [82, 48, 129, 10, 0]))"

text \<open>A speaker that accepts the command of \<open>set_source\<close> for the paired alias and
  then reports the code \<open>15\<close> of that alias (standby 20 minutes, L/R) to each of the ten
  source queries that follow, in each of the ten attempts of the retry decorator.\<close>

definition alias_world :: world where
  "alias_world =
     fresh (\<lambda>k. ConnOk)
       (script (concat (replicate 10
                  (Data [82, 17, 255] # replicate 10 (Data [82, 48, 129, 15, 0]))))
          (Data [82, 17, 255]))"

text \<open>A speaker at level 82, not muted: the value byte of its answer to the volume
  query equals the frame marker \<open>R\<close>. It acknowledges the command that follows.\<close>

definition level_82 :: world where
  "level_82 =
     fresh (\<lambda>k. ConnOk) (script [Data [82, 37, 129, 82, 0]] (Data [82, 17, 255]))"

section \<open>The source tables\<close>

lemma INPUT_SOURCES_eq:
  "INPUT_SOURCES =
     [(''Bluetooth'', [(Some 20, 9, 73), (Some 60, 25, 89), (None, 41, 105)]),
      (''Bluetooth_paired'', [(Some 20, 15, 79), (Some 60, 31, 95), (None, 47, 111)]),
      (''Aux'', [(Some 20, 10, 74), (Some 60, 26, 90), (None, 42, 106)]),
      (''Opt'', [(Some 20, 11, 75), (Some 60, 27, 91), (None, 43, 107)]),
      (''Usb'', [(Some 20, 12, 76), (Some 60, 28, 92), (None, 44, 108)]),
      (''Wifi'', [(Some 20, 2, 66), (Some 60, 18, 82), (None, 34, 98)])]"
  by code_simp

lemma INPUT_SOURCES_RESPONSE_eq:
  "INPUT_SOURCES_RESPONSE =
     [(9, ''Bluetooth'', Some 20, ''L/R''), (73, ''Bluetooth'', Some 20, ''R/L''),
      (25, ''Bluetooth'', Some 60, ''L/R''), (89, ''Bluetooth'', Some 60, ''R/L''),
      (41, ''Bluetooth'', None, ''L/R''), (105, ''Bluetooth'', None, ''R/L''),
      (15, ''Bluetooth'', Some 20, ''L/R''), (79, ''Bluetooth'', Some 20, ''R/L''),
      (31, ''Bluetooth'', Some 60, ''L/R''), (95, ''Bluetooth'', Some 60, ''R/L''),
      (47, ''Bluetooth'', None, ''L/R''), (111, ''Bluetooth'', None, ''R/L''),
      (10, ''Aux'', Some 20, ''L/R''), (74, ''Aux'', Some 20, ''R/L''),
      (26, ''Aux'', Some 60, ''L/R''), (90, ''Aux'', Some 60, ''R/L''),
      (42, ''Aux'', None, ''L/R''), (106, ''Aux'', None, ''R/L''),
      (11, ''Opt'', Some 20, ''L/R''), (75, ''Opt'', Some 20, ''R/L''),
      (27, ''Opt'', Some 60, ''L/R''), (91, ''Opt'', Some 60, ''R/L''),
      (43, ''Opt'', None, ''L/R''), (107, ''Opt'', None, ''R/L''),
      (12, ''Usb'', Some 20, ''L/R''), (76, ''Usb'', Some 20, ''R/L''),
      (28, ''Usb'', Some 60, ''L/R''), (92, ''Usb'', Some 60, ''R/L''),
      (44, ''Usb'', None, ''L/R''), (108, ''Usb'', None, ''R/L''),
      (2, ''Wifi'', Some 20, ''L/R''), (66, ''Wifi'', Some 20, ''R/L''),
      (18, ''Wifi'', Some 60, ''L/R''), (82, ''Wifi'', Some 60, ''R/L''),
      (34, ''Wifi'', None, ''L/R''), (98, ''Wifi'', None, ''R/L'')]"
  by code_simp

section \<open>Retry, the monad and one exchange\<close>

lemma retry_left_ok: "f w = Some (Inr x, w') \<Longrightarrow> retry_left n f w = Some (Inr x, w')"
  by (cases n) simp_all

lemma retry_ok: "f w = Some (Inr x, w') \<Longrightarrow> retry n f w = Some (Inr x, w')"
  by (simp add: retry_def retry_left_ok)

lemma retry_left_Inr:
  "retry_left n f w = Some (Inr x, w') \<Longrightarrow> \<exists>w1. f w1 = Some (Inr x, w')"
proof (induction n arbitrary: w)
  case 0
  then show ?case
    by (auto split: option.splits sum.splits prod.splits)
next
  case (Suc n)
  then show ?case
    by (auto split: option.splits sum.splits prod.splits)
qed

lemma retry_Inr: "retry n f w = Some (Inr x, w') \<Longrightarrow> \<exists>w1. f w1 = Some (Inr x, w')"
  unfolding retry_def by (rule retry_left_Inr)

lemma exchanged_simps [simp]:
  "is_connected (exchanged msg w)"
  "read_script (exchanged msg w) = read_script w"
  "conn_script (exchanged msg w) = conn_script w"
  "watchdog (exchanged msg w) = watchdog w"
  "read_n (exchanged msg w) = read_n w + 1"
  "tick_n (exchanged msg w) = tick_n w"
  "trace (exchanged msg w) = trace w @ [Write msg]"
  by (simp_all add: exchanged_def)

lemma connect_ok_exchanged [simp]: "connect_ok (exchanged msg w)"
  by (simp add: connect_ok_def)

lemma wire_exchanged [simp]: "wire (exchanged msg w) = wire w @ [msg]"
  by (simp add: wire_def)

lemma open_connection_ok:
  "connect_ok w \<Longrightarrow>
   open_connection w =
     Some (Inr (), if is_connected w then w
                   else w\<lparr>conn_n := conn_n w + 1, is_connected := True, is_online_flag := True\<rparr>)"
  by (auto simp: open_connection_def connect_ok_def open_connection_loop.simps
        MAX_CONNECTION_RETRIES_def)

lemma send_message_body_ok:
  assumes "connect_ok w" and "read_script w (read_n w) = Data d"
    and "parse_response msg (take 100 d) = Inr (Some r)" and "py_index r (- 2) = Inr v"
  shows "send_message_body msg w = Some (Inr v, exchanged msg w)"
  using assms
  by (simp add: send_message_body_def io_bind_def open_connection_ok u_send_message_def
        io_lift_def exchanged_def)

lemma send_message_ok:
  assumes "connect_ok w" and "read_script w (read_n w) = Data d"
    and "parse_response msg (take 100 d) = Inr (Some r)" and "py_index r (- 2) = Inr v"
  shows "send_message msg w = Some (Inr v, exchanged msg w)"
  unfolding send_message_def by (rule retry_ok) (rule send_message_body_ok [OF assms])

lemma suspend_simps [simp]:
  "conn_script (suspend w) = conn_script w"
  "read_script (suspend w) = read_script w"
  "watchdog (suspend w) = watchdog w"
  "conn_n (suspend w) = conn_n w"
  "read_n (suspend w) = read_n w"
  "tick_n (suspend w) = tick_n w + 1"
  "is_online_flag (suspend w) = is_online_flag w"
  "trace (suspend w) = trace w"
  "is_connected (suspend w) = (is_connected w \<and> \<not> watchdog w (tick_n w))"
  by (auto simp: suspend_def disconnect_def Let_def)

lemma sleep_simps [simp]:
  "conn_script (sleep d w) = conn_script w"
  "read_script (sleep d w) = read_script w"
  "watchdog (sleep d w) = watchdog w"
  "conn_n (sleep d w) = conn_n w"
  "read_n (sleep d w) = read_n w"
  "tick_n (sleep d w) = tick_n w + 1"
  "is_online_flag (sleep d w) = is_online_flag w"
  "trace (sleep d w) = trace w @ [Sleep d]"
  "is_connected (sleep d w) = (is_connected w \<and> \<not> watchdog w (tick_n w))"
  by (simp_all add: sleep_def)

lemma backoff_simps [simp]:
  "conn_script (backoff w) = conn_script w"
  "read_script (backoff w) = read_script w"
  "watchdog (backoff w) = watchdog w"
  "conn_n (backoff w) = conn_n w"
  "read_n (backoff w) = read_n w"
  "tick_n (backoff w) = tick_n w + 1"
  "is_online_flag (backoff w) = is_online_flag w"
  "trace (backoff w) = trace w @ [Backoff]"
  "is_connected (backoff w) = (is_connected w \<and> \<not> watchdog w (tick_n w))"
  by (simp_all add: backoff_def)


lemma script_simps:
  "script (x # xs) d 0 = x"
  "script (x # xs) d (Suc k) = script xs d k"
  "script [] d k = d"
  by (simp_all add: script_def)

lemma acknowledged_ack: "acknowledged [82, 17, 255]"
  by (simp add: acknowledged_def)

lemma parse_response_set:
  "acknowledged d \<Longrightarrow> parse_response (83 # m) (take 100 d) = Inr (Some [82, 17, 255])"
  by (simp add: parse_response_def acknowledged_def py_index_def)

lemma send_set_ok:
  assumes "connect_ok w" and "read_script w (read_n w) = Data d" and "acknowledged d"
  shows "send_message (83 # m) w = Some (Inr 17, exchanged (83 # m) w)"
  by (rule send_message_ok [OF assms(1,2) parse_response_set [OF assms(3)]])
     (simp add: py_index_def)

lemma u_set_volume_ok:
  assumes "0 \<le> n" and "n < 256"
    and "connect_ok w" and "read_script w (read_n w) = Data d" and "acknowledged d"
  shows "u_set_volume n w = Some (Inr (), exchanged [83, 37, 129, n] w)"
proof -
  have "u_set_volume_body n w = Some (Inr (), exchanged [83, 37, 129, n] w)"
    using assms(1,2) send_set_ok [OF assms(3-5), of "[37, 129, n]"]
    by (simp add: u_set_volume_body_def COMMANDS_set_volume_def bytes_of_def io_bind_def
          io_lift_def io_return_def SET_START_def VOL_def SET_MID_def RESPONSE_OK_def)
  then show ?thesis
    unfolding u_set_volume_def by (rule retry_ok)
qed

lemma get_volume_and_is_muted_ok:
  assumes "send_message COMMANDS_get_volume w = Some (Inr v, w')"
  shows "get_volume_and_is_muted rnd scale w =
           Some (Inr (if scale then PFloat (rnd (of_int v / 100)) else PInt v, 128 \<le> v), w')"
proof -
  have "get_volume_and_is_muted_body rnd scale w =
           Some (Inr (if scale then PFloat (rnd (of_int v / 100)) else PInt v, 128 \<le> v), w')"
    using assms
    by (simp add: get_volume_and_is_muted_body_def io_bind_def io_return_def VOLUME_SCALE_def)
  then show ?thesis
    unfolding get_volume_and_is_muted_def by (rule retry_ok)
qed

section \<open>C1: encoding a source and decoding the code\<close>

text \<open>
  Claim C1. For every source of the settable set (Bluetooth, Aux, Opt, Usb, Wifi), every
  standby policy (the i-th entry of \<open>STANDBY_OPTIONS\<close>) and both orientations, the
  code that \<open>set_source\<close> looks up in \<open>INPUT_SOURCES\<close> is the base code plus 16 times the
  policy index plus 64 for R/L, and \<open>INPUT_SOURCES_RESPONSE\<close> maps that code back to
  exactly the source, the policy and the orientation. Every code of the alias
  \<open>Bluetooth_paired\<close> decodes to the name \<open>Bluetooth\<close> with the same policy and
  orientation.
\<close>

theorem source_roundtrip:
  "\<forall>S \<in> set [''Bluetooth'', ''Aux'', ''Opt'', ''Usb'', ''Wifi''].
   \<forall>i \<in> {0 ..< length STANDBY_OPTIONS}. \<forall>inv_mode.
     (\<exists>base. map_of INPUT_SOURCES_20_MINUTES_LR S = Some base \<and>
        source_code S (STANDBY_OPTIONS ! i) inv_mode
          = Inr (base + 16 * int i + (if inv_mode then 64 else 0)) \<and>
        map_of INPUT_SOURCES_RESPONSE (base + 16 * int i + (if inv_mode then 64 else 0))
          = Some (S, STANDBY_OPTIONS ! i, if inv_mode then ''R/L'' else ''L/R'')) \<and>
     (\<exists>code. source_code ''Bluetooth_paired'' (STANDBY_OPTIONS ! i) inv_mode = Inr code \<and>
        map_of INPUT_SOURCES_RESPONSE code
          = Some (''Bluetooth'', STANDBY_OPTIONS ! i, if inv_mode then ''R/L'' else ''L/R''))"
  by (simp add: source_code_def INPUT_SOURCES_eq INPUT_SOURCES_RESPONSE_eq
        INPUT_SOURCES_20_MINUTES_LR_def STANDBY_OPTIONS_def atLeast0LessThan lessThan_Suc
        numeral_3_eq_3)

theorem source_roundtrip_witness:
  "source_code ''Aux'' (Some 20) False = Inr 10 \<and>
   map_of INPUT_SOURCES_RESPONSE 10 = Some (''Aux'', Some 20, ''L/R'') \<and>
   (\<exists>code. source_code ''Bluetooth_paired'' (Some 20) False = Inr code \<and>
      map_of INPUT_SOURCES_RESPONSE code = Some (''Bluetooth'', Some 20, ''L/R''))"
  using source_roundtrip [rule_format, of "''Aux''" 0 False]
  by (simp add: STANDBY_OPTIONS_def INPUT_SOURCES_20_MINUTES_LR_def)

section \<open>C10: is_online\<close>

lemma open_loop_refused:
  "\<not> is_connected w \<Longrightarrow> n + r = MAX_CONNECTION_RETRIES \<Longrightarrow>
   \<forall>k<n. conn_script w (conn_n w + k) = ConnRefused \<Longrightarrow>
   \<exists>w'. open_connection_loop r w
           = Some (Inl (ConnectionRefusedError ''Connection tries exceeded.''), w') \<and>
        \<not> is_online_flag w' \<and> \<not> is_connected w'"
proof (induction n arbitrary: r w)
  case 0
  then show ?case
    by (subst open_connection_loop.simps) simp
next
  case (Suc n)
  let ?w1 = "sleep (1 / 2) (w\<lparr>conn_n := conn_n w + 1\<rparr>)"
  have first: "conn_script w (conn_n w) = ConnRefused"
    using Suc.prems(3) by (metis add.right_neutral zero_less_Suc)
  have rest: "\<forall>k<n. conn_script ?w1 (conn_n ?w1 + k) = ConnRefused"
    using Suc.prems(3) by auto
  have "\<not> is_connected ?w1"
    using Suc.prems(1) by simp
  from Suc.IH [OF this _ rest, of "r + 1"] Suc.prems(2)
  obtain w' where
    "open_connection_loop (r + 1) ?w1
       = Some (Inl (ConnectionRefusedError ''Connection tries exceeded.''), w')"
    "\<not> is_online_flag w'" "\<not> is_connected w'"
    by auto
  moreover have "r < MAX_CONNECTION_RETRIES"
    using Suc.prems(2) by simp
  ultimately show ?case
    using first by (subst open_connection_loop.simps) simp
qed

lemma open_loop_then:
  "\<not> is_connected w \<Longrightarrow> r + j < MAX_CONNECTION_RETRIES \<Longrightarrow>
   \<forall>k<j. conn_script w (conn_n w + k) = ConnRefused \<Longrightarrow>
   \<exists>w1. \<not> is_connected w1 \<and> conn_n w1 = conn_n w + j \<and> conn_script w1 = conn_script w \<and>
        is_online_flag w1 = is_online_flag w \<and>
        open_connection_loop r w = open_connection_loop (r + j) w1"
proof (induction j arbitrary: r w)
  case 0
  then show ?case by auto
next
  case (Suc j)
  let ?w1 = "sleep (1 / 2) (w\<lparr>conn_n := conn_n w + 1\<rparr>)"
  have first: "conn_script w (conn_n w) = ConnRefused"
    using Suc.prems(3) by (metis add.right_neutral zero_less_Suc)
  have rest: "\<forall>k<j. conn_script ?w1 (conn_n ?w1 + k) = ConnRefused"
    using Suc.prems(3) by auto
  have nc: "\<not> is_connected ?w1"
    using Suc.prems(1) by simp
  have "r + 1 + j < MAX_CONNECTION_RETRIES"
    using Suc.prems(2) by simp
  from Suc.IH [OF nc this rest]
  obtain w2 where w2:
    "\<not> is_connected w2" "conn_n w2 = conn_n ?w1 + j" "conn_script w2 = conn_script ?w1"
    "is_online_flag w2 = is_online_flag ?w1"
    "open_connection_loop (r + 1) ?w1 = open_connection_loop (r + 1 + j) w2"
    by blast
  have "open_connection_loop r w = open_connection_loop (r + 1) ?w1"
    using first Suc.prems(2) by (subst open_connection_loop.simps) simp
  with w2 show ?case
    by (intro exI [of _ w2]) (simp add: add.commute add.left_commute)
qed

lemma is_online_returns_flag:
  "is_online w = Some (r, w') \<Longrightarrow> r = Inr (is_online_flag w')"
  by (auto simp: is_online_def Let_def split: option.splits prod.splits)

text \<open>
  Claim C10. When the communicator is not connected and every connection attempt is
  refused (ten attempts), or the host is unreachable (a timeout or an OS error, possibly
  after refused attempts), \<open>is_online\<close> returns \<open>False\<close>; when an attempt succeeds
  (possibly after refused attempts) it returns \<open>True\<close>. Whenever \<open>is_online\<close>
  returns, it returns a value and raises no error.
\<close>

theorem is_online_result:
  "(\<not> is_connected w \<longrightarrow>
      (\<forall>k<MAX_CONNECTION_RETRIES. conn_script w (conn_n w + k) = ConnRefused) \<longrightarrow>
      (\<exists>w'. is_online w = Some (Inr False, w'))) \<and>
   (\<not> is_connected w \<longrightarrow> j < MAX_CONNECTION_RETRIES \<longrightarrow>
      (\<forall>k<j. conn_script w (conn_n w + k) = ConnRefused) \<longrightarrow>
      conn_script w (conn_n w + j) \<in> {ConnTimeout, ConnOSError} \<longrightarrow>
      (\<exists>w'. is_online w = Some (Inr False, w'))) \<and>
   (\<not> is_connected w \<longrightarrow> j < MAX_CONNECTION_RETRIES \<longrightarrow>
      (\<forall>k<j. conn_script w (conn_n w + k) = ConnRefused) \<longrightarrow>
      conn_script w (conn_n w + j) = ConnOk \<longrightarrow>
      (\<exists>w'. is_online w = Some (Inr True, w') \<and> is_connected w')) \<and>
   (\<forall>r w'. is_online w = Some (r, w') \<longrightarrow> (\<exists>b. r = Inr b))"
proof (intro conjI impI allI)
  assume nc: "\<not> is_connected w"
    and all: "\<forall>k<MAX_CONNECTION_RETRIES. conn_script w (conn_n w + k) = ConnRefused"
  from open_loop_refused [OF nc _ all, of 0]
  obtain w' where
    "open_connection_loop 0 w
       = Some (Inl (ConnectionRefusedError ''Connection tries exceeded.''), w')"
    "\<not> is_online_flag w'"
    by auto
  then show "\<exists>w'. is_online w = Some (Inr False, w')"
    using nc by (simp add: is_online_def open_connection_def)
next
  assume nc: "\<not> is_connected w" and j: "j < MAX_CONNECTION_RETRIES"
    and pre: "\<forall>k<j. conn_script w (conn_n w + k) = ConnRefused"
    and ev: "conn_script w (conn_n w + j) \<in> {ConnTimeout, ConnOSError}"
  from open_loop_then [OF nc _ pre, of 0] j
  obtain w1 where w1: "\<not> is_connected w1" "conn_n w1 = conn_n w + j"
    "conn_script w1 = conn_script w"
    "open_connection_loop 0 w = open_connection_loop j w1"
    by auto
  have "\<exists>w'. open_connection_loop j w1
          = Some (Inl (ConnectionRefusedError ''Speaker is offline.''), w') \<and>
        \<not> is_online_flag w'"
    using ev j w1(2,3) by (subst open_connection_loop.simps) auto
  then show "\<exists>w'. is_online w = Some (Inr False, w')"
    using nc w1(4) by (auto simp: is_online_def open_connection_def)
next
  assume nc: "\<not> is_connected w" and j: "j < MAX_CONNECTION_RETRIES"
    and pre: "\<forall>k<j. conn_script w (conn_n w + k) = ConnRefused"
    and ev: "conn_script w (conn_n w + j) = ConnOk"
  from open_loop_then [OF nc _ pre, of 0] j
  obtain w1 where w1: "\<not> is_connected w1" "conn_n w1 = conn_n w + j"
    "conn_script w1 = conn_script w"
    "open_connection_loop 0 w = open_connection_loop j w1"
    by auto
  have "\<exists>w'. open_connection_loop j w1 = Some (Inr (), w') \<and>
        is_online_flag w' \<and> is_connected w'"
    using ev j w1(2,3) by (subst open_connection_loop.simps) auto
  then show "\<exists>w'. is_online w = Some (Inr True, w') \<and> is_connected w'"
    using nc w1(4) by (auto simp: is_online_def open_connection_def)
next
  fix r w'
  assume "is_online w = Some (r, w')"
  then show "\<exists>b. r = Inr b"
    by (auto dest: is_online_returns_flag)
qed

theorem is_online_result_witness:
  "(\<exists>w'. is_online (fresh (\<lambda>k. ConnRefused) (\<lambda>k. ReadTimeout)) = Some (Inr False, w')) \<and>
   (\<exists>w'. is_online (fresh (script [ConnRefused, ConnRefused] ConnTimeout) (\<lambda>k. ReadTimeout))
            = Some (Inr False, w')) \<and>
   (\<exists>w'. is_online (fresh (script [ConnRefused, ConnRefused] ConnOk) (\<lambda>k. ReadTimeout))
            = Some (Inr True, w') \<and> is_connected w')"
  using is_online_result [of "fresh (\<lambda>k. ConnRefused) (\<lambda>k. ReadTimeout)" 0]
    is_online_result [of "fresh (script [ConnRefused, ConnRefused] ConnTimeout) (\<lambda>k. ReadTimeout)" 2]
    is_online_result [of "fresh (script [ConnRefused, ConnRefused] ConnOk) (\<lambda>k. ReadTimeout)" 2]
  by (simp add: fresh_def script_def MAX_CONNECTION_RETRIES_def less_Suc_eq numeral_2_eq_2)

section \<open>C9: a read that gets no answer\<close>

lemma watchdog_closes_first: "watchdog_closes_first"
  by (simp add: watchdog_closes_first_def KEEP_ALIVE_def TIMEOUT_def)



section \<open>C4: decoding the volume byte\<close>

text \<open>
  Claim C4, as the code has it. For a speaker muted at level 30, whose raw volume byte
  is \<open>30 + 128\<close>, the decoded pair is \<open>(158, muted)\<close>, and \<open>(1.58, muted)\<close> when
  scaled: the mute flag is right, but the level is the raw byte and not the byte modulo
  128, which is 30.
\<close>

theorem volume_decode_when_muted:
  "map_option fst
     (get_volume_and_is_muted (\<lambda>x. x) False
        (fresh (\<lambda>k. ConnOk) (\<lambda>k. Data [82, 37, 129, 30 + 128, 0])))
     = Some (Inr (PInt 158, True)) \<and>
   map_option fst
     (get_volume_and_is_muted (\<lambda>x. x) True
        (fresh (\<lambda>k. ConnOk) (\<lambda>k. Data [82, 37, 129, 30 + 128, 0])))
     = Some (Inr (PFloat (158 / 100), True)) \<and>
   (158 :: int) mod 128 = 30 \<and>
   map_option fst
     (get_volume_and_is_muted (\<lambda>x. x) False
        (fresh (\<lambda>k. ConnOk) (\<lambda>k. Data [82, 37, 129, 30 + 128, 0])))
     \<noteq> Some (Inr (PInt 30, True))"
  by code_simp

section \<open>C5: mute and unmute\<close>

lemma mute_ok:
  assumes "send_message COMMANDS_get_volume w = Some (Inr v, w1)"
    and "0 \<le> v"
    and "connect_ok w1" and "read_script w1 (read_n w1) = Data d" and "acknowledged d"
  shows "mute rnd w = Some (Inr (), exchanged [83, 37, 129, v mod 128 + 128] w1)"
proof -
  have "0 \<le> v mod 128 + 128" "v mod 128 + 128 < 256"
    by simp_all
  from u_set_volume_ok [OF this assms(3-5)] show ?thesis
    by (simp add: mute_def io_bind_def get_volume_and_is_muted_ok [OF assms(1)] py_int_def)
qed

lemma unmute_ok:
  assumes "send_message COMMANDS_get_volume w = Some (Inr v, w1)"
    and "0 \<le> v"
    and "connect_ok w1" and "read_script w1 (read_n w1) = Data d" and "acknowledged d"
  shows "unmute rnd w = Some (Inr (), exchanged [83, 37, 129, v mod 128] w1)"
proof -
  have "0 \<le> v mod 128" "v mod 128 < 256"
    by (simp, rule less_trans [of _ 128]) simp_all
  from u_set_volume_ok [OF this assms(3-5)] show ?thesis
    by (simp add: unmute_def io_bind_def get_volume_and_is_muted_ok [OF assms(1)] py_int_def)
qed

text \<open>
  Claim C5, as the code has it. On a speaker at level 82 that is not muted, the answer
  to the volume query carries the value byte \<open>0x52\<close>, the frame marker: the reply is
  cut at that byte, the transport returns the field byte 37 as the volume, and \<open>mute\<close>
  writes back \<open>37 + 128 = 165\<close> where the level 82 asks for \<open>82 + 128 = 210\<close>.
  \<open>unmute\<close> writes back 37. The stored level is changed from 82 to 37.
\<close>

theorem mute_changes_level_82:
  "map_option (\<lambda>(r, w). (r, wire w)) (mute (\<lambda>x. x) level_82)
     = Some (Inr (), [[71, 37, 128], [83, 37, 129, 165]]) \<and>
   map_option (\<lambda>(r, w). (r, wire w)) (unmute (\<lambda>x. x) level_82)
     = Some (Inr (), [[71, 37, 128], [83, 37, 129, 37]]) \<and>
   parse_response [71, 37, 128] [82, 37, 129, 82, 0] = Inr (Some [82, 37, 129]) \<and>
   (82 :: int) mod 128 + 128 = 210"
  by code_simp

section \<open>C7: changing the volume of a muted speaker\<close>

text \<open>
  Claim C7, as the code has it. On a speaker muted at level 30, \<open>increase_volume\<close> and
  \<open>decrease_volume\<close> query the volume (\<open>get_volume\<close> returns \<open>None\<close>), query the
  mute flag, unmute the speaker by writing 30, and then fail with \<open>AssertionError\<close> at
  \<open>assert volume is not None\<close>: no volume is set.
\<close>

theorem change_volume_when_muted:
  "map_option (\<lambda>(r, w). (r, wire w))
     (increase_volume (\<lambda>x. x)
        \<lparr>volume_step = 1 / 20, maximum_volume = 1, standby_time = None,
         inverse_speaker_mode = False\<rparr> muted_30)
     = Some (Inl AssertionError,
             [[71, 37, 128], [71, 37, 128], [71, 37, 128], [83, 37, 129, 30]]) \<and>
   map_option (\<lambda>(r, w). (r, wire w))
     (decrease_volume (\<lambda>x. x)
        \<lparr>volume_step = 1 / 20, maximum_volume = 1, standby_time = None,
         inverse_speaker_mode = False\<rparr> muted_30)
     = Some (Inl AssertionError,
             [[71, 37, 128], [71, 37, 128], [71, 37, 128], [83, 37, 129, 30]])"
  by code_simp

section \<open>C8: set_volume\<close>

lemma clamp_bounds:
  "0 \<le> m \<Longrightarrow> 0 \<le> py_max 0 (py_min m v) \<and> py_max 0 (py_min m v) \<le> m"
  by (auto simp: py_max_def py_min_def)

lemma clamp_max_min: "py_max 0 (py_min m v) = max 0 (min m v)"
  by (auto simp: py_max_def py_min_def max_def min_def)

lemma py_int_range:
  "0 \<le> x \<Longrightarrow> x \<le> 100 \<Longrightarrow> 0 \<le> py_int (PFloat x) \<and> py_int (PFloat x) \<le> 100"
  by (simp add: py_int_def floor_le_iff)

lemma rnd_range:
  assumes "mono rnd" and "rnd 0 = 0" and "rnd 100 = 100" and "0 \<le> (c::rat)" and "c \<le> 1"
  shows "0 \<le> rnd (c * 100) \<and> rnd (c * 100) \<le> (100::rat)"
proof -
  have "0 \<le> c * 100" "c * 100 \<le> 100"
    using assms(4,5) by simp_all
  then have "rnd 0 \<le> rnd (c * 100)" "rnd (c * 100) \<le> rnd 100"
    using assms(1) by (blast dest: monoD)+
  then show ?thesis
    using assms(2,3) by simp
qed

lemma set_volume_run:
  assumes "0 \<le> py_int (PFloat (rnd (py_max 0 (py_min (maximum_volume spk) v) * 100)))"
    and "py_int (PFloat (rnd (py_max 0 (py_min (maximum_volume spk) v) * 100))) < 256"
    and "connect_ok w" and "read_script w (read_n w) = Data d" and "acknowledged d"
  shows "set_volume rnd spk v w =
           Some (Inr (py_max 0 (py_min (maximum_volume spk) v)),
                 exchanged [83, 37, 129,
                   py_int (PFloat (rnd (py_max 0 (py_min (maximum_volume spk) v) * 100)))] w)"
  using u_set_volume_ok [OF assms]
  by (simp add: set_volume_def Let_def io_bind_def io_return_def VOLUME_SCALE_def)
text \<open>
  Claim C8. With a maximum volume between 0 and 1 and a speaker that acknowledges the
  command, \<open>set_volume v\<close> clamps \<open>v\<close> to the interval from 0 to the maximum volume,
  sends as level the integer part of the float product \<open>clamped * 100\<close>, which lies
  between 0 and 100, and returns the clamped value; for \<open>v = 1.5\<close> and maximum volume
  1 it returns 1 and sends 100. The rounding of the float product is monotone and
  leaves 0 and 100 unchanged.
\<close>

theorem set_volume_clamps:
  assumes "mono rnd" and "rnd 0 = 0" and "rnd 100 = 100"
    and "0 \<le> maximum_volume spk" and "maximum_volume spk \<le> 1"
    and "connect_ok w" and "read_script w (read_n w) = Data d" and "acknowledged d"
  shows "\<exists>clamped level.
           set_volume rnd spk v w = Some (Inr clamped, exchanged [83, 37, 129, level] w) \<and>
           clamped = max 0 (min (maximum_volume spk) v) \<and>
           0 \<le> clamped \<and> clamped \<le> maximum_volume spk \<and>
           level = \<lfloor>rnd (clamped * 100)\<rfloor> \<and> 0 \<le> level \<and> level \<le> 100 \<and>
           (maximum_volume spk = 1 \<and> v = 3 / 2 \<longrightarrow> clamped = 1 \<and> level = 100)"
proof -
  define clamped where "clamped = py_max 0 (py_min (maximum_volume spk) v)"
  define level where "level = py_int (PFloat (rnd (clamped * 100)))"
  have b: "0 \<le> clamped \<and> clamped \<le> maximum_volume spk"
    unfolding clamped_def by (rule clamp_bounds [OF assms(4)])
  then have "0 \<le> clamped" "clamped \<le> 1"
    using assms(5) by simp_all
  from rnd_range [OF assms(1-3) this]
  have r: "0 \<le> rnd (clamped * 100)" "rnd (clamped * 100) \<le> 100"
    by simp_all
  from py_int_range [OF this]
  have l: "0 \<le> level \<and> level \<le> 100"
    unfolding level_def .
  then have l': "0 \<le> level" "level < 256"
    by simp_all
  have run: "set_volume rnd spk v w = Some (Inr clamped, exchanged [83, 37, 129, level] w)"
    using l' unfolding level_def clamped_def by (rule set_volume_run [OF _ _ assms(6-8)])
  have inst: "maximum_volume spk = 1 \<and> v = 3 / 2 \<longrightarrow> clamped = 1 \<and> level = 100"
  proof
    assume a: "maximum_volume spk = 1 \<and> v = 3 / 2"
    then have c: "clamped = 1"
      by (simp add: clamped_def py_max_def py_min_def)
    then have "level = 100"
      using assms(3) by (simp add: level_def py_int_def)
    with c show "clamped = 1 \<and> level = 100" by simp
  qed
  have eq: "clamped = max 0 (min (maximum_volume spk) v)"
    unfolding clamped_def by (rule clamp_max_min)
  have lv: "level = \<lfloor>rnd (clamped * 100)\<rfloor>"
    using r(1) by (simp add: level_def py_int_def)
  from run eq b lv l inst show ?thesis
    by blast
qed

theorem set_volume_clamps_witness:
  "\<exists>clamped level.
     set_volume (\<lambda>x. x)
       \<lparr>volume_step = 1 / 20, maximum_volume = 1, standby_time = None,
        inverse_speaker_mode = False\<rparr> (3 / 2) (fresh (\<lambda>k. ConnOk) (\<lambda>k. Data [82, 17, 255]))
       = Some (Inr clamped,
               exchanged [83, 37, 129, level] (fresh (\<lambda>k. ConnOk) (\<lambda>k. Data [82, 17, 255]))) \<and>
     clamped = 1 \<and> level = 100"
proof -
  have m: "mono (\<lambda>x::rat. x)"
    by (simp add: mono_def)
  have c: "connect_ok (fresh (\<lambda>k. ConnOk) (\<lambda>k. Data [82, 17, 255]))"
    by (simp add: connect_ok_def fresh_def)
  have r: "read_script (fresh (\<lambda>k. ConnOk) (\<lambda>k. Data [82, 17, 255]))
             (read_n (fresh (\<lambda>k. ConnOk) (\<lambda>k. Data [82, 17, 255]))) = Data [82, 17, 255]"
    by (simp add: fresh_def)
  have "\<exists>clamped level.
     set_volume (\<lambda>x. x)
       \<lparr>volume_step = 1 / 20, maximum_volume = 1, standby_time = None,
        inverse_speaker_mode = False\<rparr> (3 / 2) (fresh (\<lambda>k. ConnOk) (\<lambda>k. Data [82, 17, 255]))
       = Some (Inr clamped,
               exchanged [83, 37, 129, level] (fresh (\<lambda>k. ConnOk) (\<lambda>k. Data [82, 17, 255]))) \<and>
     clamped = max 0 (min (maximum_volume \<lparr>volume_step = 1 / 20, maximum_volume = 1, standby_time = None,
        inverse_speaker_mode = False\<rparr>) (3 / 2)) \<and>
           0 \<le> clamped \<and> clamped \<le> maximum_volume \<lparr>volume_step = 1 / 20, maximum_volume = 1, standby_time = None,
        inverse_speaker_mode = False\<rparr> \<and>
           level = \<lfloor>clamped * 100\<rfloor> \<and> 0 \<le> level \<and> level \<le> 100 \<and>
           (maximum_volume \<lparr>volume_step = 1 / 20, maximum_volume = 1, standby_time = None,
        inverse_speaker_mode = False\<rparr> = 1 \<and> (3 / 2 :: rat) = 3 / 2 \<longrightarrow> clamped = 1 \<and> level = 100)"
    by (rule set_volume_clamps [OF m _ _ _ _ c r acknowledged_ack]) simp_all
  then show ?thesis
    by auto
qed

section \<open>Successful queries and commands\<close>

lemma io_bind_Inr:
  "io_bind m f w = Some (Inr y, w') \<Longrightarrow>
   \<exists>x w1. m w = Some (Inr x, w1) \<and> f x w1 = Some (Inr y, w')"
  by (auto simp: io_bind_def split: option.splits sum.splits prod.splits)

lemma get_state_ok:
  assumes "connect_ok w" and "read_script w (read_n w) = Data d"
    and "parse_response COMMANDS_get_source (take 100 d) = Inr (Some r)"
    and "py_index r (- 2) = Inr resp"
    and "map_of INPUT_SOURCES_RESPONSE (resp mod 128) = Some (src, t, ori)"
  shows "get_state w = Some (Inr (State src (resp \<le> 128) t ori), exchanged COMMANDS_get_source w)"
proof -
  have "get_state_body w
          = Some (Inr (State src (resp \<le> 128) t ori), exchanged COMMANDS_get_source w)"
    using send_message_ok [OF assms(1-4)] assms(5)
    by (simp add: get_state_body_def io_bind_def io_return_def)
  then show ?thesis
    unfolding get_state_def by (rule retry_ok)
qed

lemma get_source_ok:
  assumes "connect_ok w" and "read_script w (read_n w) = Data d"
    and "parse_response COMMANDS_get_source (take 100 d) = Inr (Some r)"
    and "py_index r (- 2) = Inr resp"
    and "map_of INPUT_SOURCES_RESPONSE (resp mod 128) = Some (src, t, ori)"
  shows "get_source w = Some (Inr src, exchanged COMMANDS_get_source w)"
  using get_state_ok [OF assms]
  by (simp add: get_source_def io_bind_def io_return_def)

lemma is_on_ok:
  assumes "connect_ok w" and "read_script w (read_n w) = Data d"
    and "parse_response COMMANDS_get_source (take 100 d) = Inr (Some r)"
    and "py_index r (- 2) = Inr resp"
    and "map_of INPUT_SOURCES_RESPONSE (resp mod 128) = Some (src, t, ori)"
  shows "is_on w = Some (Inr (resp \<le> 128), exchanged COMMANDS_get_source w)"
  using get_state_ok [OF assms]
  by (simp add: is_on_def io_bind_def io_return_def)

lemma set_source_ok:
  assumes "source \<in> fst ` set INPUT_SOURCES"
    and "source_code source (standby_time spk) (inverse_speaker_mode spk) = Inr code"
    and "connect_ok w" and "read_script w (read_n w) = Data d" and "acknowledged d"
    and "read_script w (read_n w + 1) = Data d2"
    and "parse_response COMMANDS_get_source (take 100 d2) = Inr (Some r)"
    and "py_index r (- 2) = Inr resp"
    and "map_of INPUT_SOURCES_RESPONSE (resp mod 128) = Some (source, t, ori)"
  shows "set_source spk source st w =
           Some (Inr (), exchanged COMMANDS_get_source
                   (exchanged [83, 48, 129,
                      if st = ''off'' then code mod 128 + 128 else code mod 128] w))"
proof -
  define i where "i = (if st = ''off'' then code mod 128 + 128 else code mod 128)"
  let ?w1 = "exchanged [83, 48, 129, i] w"
  have "code mod 128 < 256"
    using pos_mod_bound [of 128 code] by linarith
  then have range: "0 \<le> i" "i < 256"
    by (simp_all add: i_def)
  have cmd: "COMMANDS_set_source i = Inr [83, 48, 129, i]"
    using range
    by (simp add: COMMANDS_set_source_def bytes_of_def SET_START_def SOURCE_def SET_MID_def)
  have send: "send_message [83, 48, 129, i] w = Some (Inr 17, ?w1)"
    by (rule send_set_ok [OF assms(3-5)])
  have "read_script ?w1 (read_n ?w1) = Data d2"
    using assms(6) by simp
  from get_source_ok [OF _ this assms(7-9)]
  have "get_source ?w1 = Some (Inr source, exchanged COMMANDS_get_source ?w1)"
    by simp
  then have poll: "set_source_poll MAX_ATTEMPT_TILL_SUCCESS source ?w1
                     = Some (Inr (), exchanged COMMANDS_get_source ?w1)"
    by (simp add: MAX_ATTEMPT_TILL_SUCCESS_def eval_nat_numeral io_bind_def io_return_def)
  have "set_source_body spk source st w = Some (Inr (), exchanged COMMANDS_get_source ?w1)"
    using assms(1,2) cmd send poll
    by (simp add: set_source_body_def io_bind_def io_lift_def Let_def i_def [symmetric]
          RESPONSE_OK_def)
  then show ?thesis
    unfolding set_source_def i_def by (rule retry_ok)
qed

lemma bytes_split_nonempty: "bytes_split sep xs \<noteq> []"
  by (induction xs) (auto split: list.splits)

lemma bytes_split_piece:
  "sep \<notin> set p \<Longrightarrow> post = [] \<or> hd post = sep \<Longrightarrow> p \<in> set (bytes_split sep (p @ post))"
proof (induction p)
  case Nil
  then show ?case
    by (cases post) auto
next
  case (Cons x p)
  then have "p \<in> set (bytes_split sep (p @ post))" and ne: "x \<noteq> sep"
    by auto
  moreover have "hd (bytes_split sep (p @ post)) = p"
    using Cons.prems
  proof (induction p)
    case Nil
    then show ?case by (cases post) auto
  next
    case (Cons y p)
    then show ?case
      using bytes_split_nonempty [of sep "p @ post"]
      by (auto split: list.splits)
  qed
  ultimately show ?case
    using bytes_split_nonempty [of sep "p @ post"]
    by (auto split: list.splits)
qed

lemma set_tl_subset: "x \<in> set (tl xs) \<Longrightarrow> x \<in> set xs"
  by (cases xs) auto

lemma bytes_split_frame_tl:
  "sep \<notin> set p \<Longrightarrow> post = [] \<or> hd post = sep \<Longrightarrow>
   p \<in> set (tl (bytes_split sep (pre @ sep # p @ post)))"
proof (induction pre)
  case Nil
  then show ?case
    by (simp add: bytes_split_piece)
next
  case (Cons x pre)
  then have ih: "p \<in> set (tl (bytes_split sep (pre @ sep # p @ post)))"
    by simp
  show ?case
  proof (cases "x = sep")
    case True
    with ih show ?thesis
      by (auto dest: set_tl_subset)
  next
    case False
    with ih show ?thesis
      using bytes_split_nonempty [of sep "pre @ sep # p @ post"]
      by (auto split: list.splits)
  qed
qed

lemma bytes_split_frame:
  "sep \<notin> set p \<Longrightarrow> post = [] \<or> hd post = sep \<Longrightarrow>
   p \<in> set (bytes_split sep (pre @ sep # p @ post))"
  using bytes_split_frame_tl [of sep p post pre] bytes_split_nonempty [of sep "pre @ sep # p @ post"]
  by (auto dest: set_tl_subset)

lemma acknowledged_frame:
  assumes "length pre + 3 \<le> 100" and "post = [] \<or> hd post = 82"
  shows "acknowledged (pre @ [82, 17, 255] @ post)"
proof -
  have t: "take 100 (pre @ [82, 17, 255] @ post)
             = pre @ 82 # [17, 255] @ take (100 - (length pre + 3)) post"
  proof -
    have "100 - length pre = Suc (Suc (Suc (97 - length pre)))"
      using assms(1) by simp
    then show ?thesis
      using assms(1) by simp
  qed
  have "take (100 - (length pre + 3)) post = [] \<or> hd (take (100 - (length pre + 3)) post) = 82"
    using assms(2) by (cases "100 - (length pre + 3)") auto
  then have "[17, 255] \<in> set (bytes_split 82 (take 100 (pre @ [82, 17, 255] @ post)))"
    unfolding t by (intro bytes_split_frame) simp_all
  then show ?thesis
    unfolding acknowledged_def by (simp add: image_iff)
qed

lemma aux_in_sources: "''Aux'' \<in> fst ` set INPUT_SOURCES"
  by (simp add: INPUT_SOURCES_eq)

lemma aux_code: "source_code ''Aux'' (Some 20) False = Inr 10"
  by (simp add: source_code_def INPUT_SOURCES_eq)

lemma aux_response: "map_of INPUT_SOURCES_RESPONSE (10 mod 128) = Some (''Aux'', Some 20, ''L/R'')"
  by (simp add: INPUT_SOURCES_RESPONSE_eq)

lemma get_source_cmd: "COMMANDS_get_source = [71, 48, 128]"
  by (simp add: COMMANDS_get_source_def GET_START_def SOURCE_def GET_MID_def)

lemma get_volume_cmd: "COMMANDS_get_volume = [71, 37, 128]"
  by (simp add: COMMANDS_get_volume_def GET_START_def VOL_def GET_MID_def)

lemma aux_frame:
  "parse_response [71, 48, 128] (take 100 [82, 48, 129, 10, 0]) = Inr (Some [82, 48, 129, 10, 0])"
  by code_simp

section \<open>C3: the paired alias as a set target\<close>

text \<open>
  Claim C3, as the code has it. \<open>Bluetooth_paired\<close> is a key of \<open>INPUT_SOURCES\<close>, so
  the assertion of \<open>set_source\<close> accepts it: with standby time 20 and L/R orientation
  the command \<open>0x53 0x30 0x81 0x0F\<close> with the alias's code 15 is written to the
  speaker, once in each of the ten attempts, and each attempt polls the source ten
  times. The call fails only afterwards with \<open>TimeoutError\<close>, because the decoder
  reports the speaker's answer as \<open>Bluetooth\<close>.
\<close>

theorem set_source_accepts_paired_alias:
  "''Bluetooth_paired'' \<in> fst ` set INPUT_SOURCES \<and>
   source_code ''Bluetooth_paired'' (Some 20) False = Inr 15 \<and>
   map_option (\<lambda>(r, w). (r, take 2 (wire w), length (filter (\<lambda>m. m = [83, 48, 129, 15]) (wire w))))
     (set_source speaker_20_LR ''Bluetooth_paired'' ''on'' alias_world)
     = Some (Inl (RetryError TimeoutError), [[83, 48, 129, 15], [71, 48, 128]], 10)"
proof (intro conjI)
  show "''Bluetooth_paired'' \<in> fst ` set INPUT_SOURCES"
    by (simp add: INPUT_SOURCES_eq)
  show "source_code ''Bluetooth_paired'' (Some 20) False = Inr 15"
    by (simp add: source_code_def INPUT_SOURCES_eq)
  show "map_option (\<lambda>(r, w). (r, take 2 (wire w), length (filter (\<lambda>m. m = [83, 48, 129, 15]) (wire w))))
     (set_source speaker_20_LR ''Bluetooth_paired'' ''on'' alias_world)
     = Some (Inl (RetryError TimeoutError), [[83, 48, 129, 15], [71, 48, 128]], 10)"
    by code_simp
qed

section \<open>C2: setting and reading back the source Aux\<close>

text \<open>
  The scenario of claim C2 as it is written fails at its last step: of the three-byte
  reply \<open>0x52 0x30 0x0A\<close> the transport returns the second-to-last byte \<open>0x30\<close>,
  which is no source code, so every attempt of \<open>get_state\<close> raises
  \<open>ConnectionError\<close> and \<open>get_source\<close> does not return Aux.
\<close>

theorem three_byte_reply_counterexample:
  "map_option fst (get_state (fresh (\<lambda>k. ConnOk) (\<lambda>k. Data [82, 48, 10])))
     = Some (Inl (RetryError ConnectionError)) \<and>
   map_option fst (get_source (fresh (\<lambda>k. ConnOk) (\<lambda>k. Data [82, 48, 10])))
     \<noteq> Some (Inr ''Aux'')"
  by code_simp

text \<open>
  Claim C2, amended. With standby time 20 and L/R orientation, \<open>set_source Aux on\<close>
  sends \<open>0x53 0x30 0x81 0x0A\<close>; a reply that contains the frame \<open>0x52 0x11 0xFF\<close>
  (followed by nothing or by the next frame) is accepted as acknowledgement, and the
  source is polled once with \<open>0x47 0x30 0x80\<close>. A subsequent \<open>get_state\<close> or
  \<open>get_source\<close> sends \<open>0x47 0x30 0x80\<close>, and given a reply whose frame for the
  source query has \<open>0x0A\<close> as its second-to-last byte, it returns source Aux with
  \<open>is_on = True\<close>.
\<close>

theorem set_source_aux_scenario:
  assumes "standby_time spk = Some 20" and "\<not> inverse_speaker_mode spk"
    and "connect_ok w"
    and "read_script w (read_n w) = Data (pre @ [82, 17, 255] @ post)"
    and "length pre + 3 \<le> 100" and "post = [] \<or> hd post = 82"
    and "read_script w (read_n w + 1) = Data d" and "read_script w (read_n w + 2) = Data d"
    and "parse_response [71, 48, 128] (take 100 d) = Inr (Some r)"
    and "py_index r (- 2) = Inr 10"
  shows "set_source spk ''Aux'' ''on'' w
           = Some (Inr (), exchanged [71, 48, 128] (exchanged [83, 48, 129, 10] w)) \<and>
         get_state (exchanged [71, 48, 128] (exchanged [83, 48, 129, 10] w))
           = Some (Inr (State ''Aux'' True (Some 20) ''L/R''),
                   exchanged [71, 48, 128]
                     (exchanged [71, 48, 128] (exchanged [83, 48, 129, 10] w))) \<and>
         get_source (exchanged [71, 48, 128] (exchanged [83, 48, 129, 10] w))
           = Some (Inr ''Aux'',
                   exchanged [71, 48, 128]
                     (exchanged [71, 48, 128] (exchanged [83, 48, 129, 10] w)))"
proof -
  let ?w2 = "exchanged [71, 48, 128] (exchanged [83, 48, 129, 10] w)"
  have code: "source_code ''Aux'' (standby_time spk) (inverse_speaker_mode spk) = Inr 10"
    using assms(1,2) aux_code by simp
  have ack: "acknowledged (pre @ [82, 17, 255] @ post)"
    by (rule acknowledged_frame [OF assms(5,6)])
  have p: "parse_response COMMANDS_get_source (take 100 d) = Inr (Some r)"
    using assms(9) by (simp add: get_source_cmd)
  have "set_source spk ''Aux'' ''on'' w =
           Some (Inr (), exchanged COMMANDS_get_source
                   (exchanged [83, 48, 129,
                      if ''on'' = ''off'' then 10 mod 128 + 128 else 10 mod 128] w))"
    by (rule set_source_ok [OF aux_in_sources code assms(3,4) ack assms(7) p assms(10)
          aux_response])
  then have s: "set_source spk ''Aux'' ''on'' w = Some (Inr (), ?w2)"
    by (simp add: get_source_cmd)
  have r2: "read_script ?w2 (read_n ?w2) = Data d"
    using assms(8) by (simp add: numeral_2_eq_2)
  have c2: "connect_ok ?w2"
    by simp
  have g: "get_state ?w2
             = Some (Inr (State ''Aux'' True (Some 20) ''L/R''), exchanged [71, 48, 128] ?w2)"
    using get_state_ok [OF c2 r2 p assms(10) aux_response] by (simp add: get_source_cmd)
  have g': "get_source ?w2 = Some (Inr ''Aux'', exchanged [71, 48, 128] ?w2)"
    using get_source_ok [OF c2 r2 p assms(10) aux_response] by (simp add: get_source_cmd)
  from s g g' show ?thesis by simp
qed

theorem set_source_aux_scenario_witness:
  "set_source \<lparr>volume_step = 1 / 20, maximum_volume = 1, standby_time = Some 20,
                inverse_speaker_mode = False\<rparr> ''Aux'' ''on'' aux_world
     = Some (Inr (), exchanged [71, 48, 128] (exchanged [83, 48, 129, 10] aux_world)) \<and>
   get_state (exchanged [71, 48, 128] (exchanged [83, 48, 129, 10] aux_world))
     = Some (Inr (State ''Aux'' True (Some 20) ''L/R''),
             exchanged [71, 48, 128]
               (exchanged [71, 48, 128] (exchanged [83, 48, 129, 10] aux_world))) \<and>
   get_source (exchanged [71, 48, 128] (exchanged [83, 48, 129, 10] aux_world))
     = Some (Inr ''Aux'',
             exchanged [71, 48, 128]
               (exchanged [71, 48, 128] (exchanged [83, 48, 129, 10] aux_world)))"
  by (rule set_source_aux_scenario [where pre = "[]" and post = "[]"
        and d = "[82, 48, 129, 10, 0]", OF _ _ _ _ _ _ _ _ aux_frame])
     (simp_all add: aux_world_def fresh_def connect_ok_def script_simps py_index_def
        numeral_2_eq_2)

section \<open>C6: turn_on and turn_off\<close>

lemma get_state_power_reply:
  assumes "connect_ok w" and "power_reply on (read_script w (read_n w))"
  shows "\<exists>st. get_state w = Some (Inr st, exchanged COMMANDS_get_source w) \<and>
              state_is_on st = on"
proof -
  from assms(2) obtain d where d: "read_script w (read_n w) = Data d"
    by (cases "read_script w (read_n w)") (simp_all add: power_reply_def)
  with assms(2) have
    "case parse_response COMMANDS_get_source (take 100 d) of
       Inr (Some r) \<Rightarrow>
         (case py_index r (- 2) of
            Inr resp \<Rightarrow>
              (resp \<le> 128) = on \<and> map_of INPUT_SOURCES_RESPONSE (resp mod 128) \<noteq> None
          | Inl e \<Rightarrow> False)
     | _ \<Rightarrow> False"
    by (simp add: power_reply_def)
  then obtain r where p: "parse_response COMMANDS_get_source (take 100 d) = Inr (Some r)"
    and "case py_index r (- 2) of
            Inr resp \<Rightarrow>
              (resp \<le> 128) = on \<and> map_of INPUT_SOURCES_RESPONSE (resp mod 128) \<noteq> None
          | Inl e \<Rightarrow> False"
    by (auto split: sum.splits option.splits)
  then obtain resp where i: "py_index r (- 2) = Inr resp"
    and o: "(resp \<le> 128) = on"
    and "map_of INPUT_SOURCES_RESPONSE (resp mod 128) \<noteq> None"
    by (auto split: sum.splits)
  then obtain e where m: "map_of INPUT_SOURCES_RESPONSE (resp mod 128) = Some e"
    by auto
  obtain src t ori where "e = (src, t, ori)"
    by (cases e)
  with m have "map_of INPUT_SOURCES_RESPONSE (resp mod 128) = Some (src, t, ori)"
    by simp
  from get_state_ok [OF assms(1) d p i this] o show ?thesis
    by simp
qed

lemma is_on_power_reply:
  assumes "connect_ok w" and "power_reply on (read_script w (read_n w))"
  shows "is_on w = Some (Inr on, exchanged COMMANDS_get_source w)"
proof -
  from assms(2) obtain d where d: "read_script w (read_n w) = Data d"
    by (cases "read_script w (read_n w)") (simp_all add: power_reply_def)
  with assms(2) have
    "case parse_response COMMANDS_get_source (take 100 d) of
       Inr (Some r) \<Rightarrow>
         (case py_index r (- 2) of
            Inr resp \<Rightarrow>
              (resp \<le> 128) = on \<and> map_of INPUT_SOURCES_RESPONSE (resp mod 128) \<noteq> None
          | Inl e \<Rightarrow> False)
     | _ \<Rightarrow> False"
    by (simp add: power_reply_def)
  then obtain r where p: "parse_response COMMANDS_get_source (take 100 d) = Inr (Some r)"
    and "case py_index r (- 2) of
            Inr resp \<Rightarrow>
              (resp \<le> 128) = on \<and> map_of INPUT_SOURCES_RESPONSE (resp mod 128) \<noteq> None
          | Inl e \<Rightarrow> False"
    by (auto split: sum.splits option.splits)
  then obtain resp where i: "py_index r (- 2) = Inr resp"
    and o: "(resp \<le> 128) = on"
    and "map_of INPUT_SOURCES_RESPONSE (resp mod 128) \<noteq> None"
    by (auto split: sum.splits)
  then obtain e where m: "map_of INPUT_SOURCES_RESPONSE (resp mod 128) = Some e"
    by auto
  obtain src t ori where "e = (src, t, ori)"
    by (cases e)
  with m have "map_of INPUT_SOURCES_RESPONSE (resp mod 128) = Some (src, t, ori)"
    by simp
  from is_on_ok [OF assms(1) d p i this] o show ?thesis
    by simp
qed

lemma poll_step_simps [simp]:
  "conn_script (poll_step w) = conn_script w"
  "read_script (poll_step w) = read_script w"
  "read_n (poll_step w) = read_n w + 1"
  "trace (poll_step w) = trace w @ [Write COMMANDS_get_source, Sleep 1]"
  by (simp_all add: poll_step_def)

lemma poll_steps_trace:
  "trace ((poll_step ^^ k) w)
     = trace w @ concat (replicate k [Write COMMANDS_get_source, Sleep 1])"
  by (induction k arbitrary: w) (simp_all add: funpow_swap1)

lemma turn_on_poll_converges:
  assumes "\<forall>j. conn_script w j = ConnOk" and "k < n"
    and "\<forall>i<k. power_reply False (read_script w (read_n w + i))"
    and "power_reply True (read_script w (read_n w + k))"
  shows "turn_on_poll n w = Some (Inr (), exchanged COMMANDS_get_source ((poll_step ^^ k) w))"
  using assms
proof (induction k arbitrary: n w)
  case 0
  then obtain m where n: "n = Suc m"
    by (cases n) auto
  have "connect_ok w"
    using "0.prems"(1) by (simp add: connect_ok_def)
  from is_on_power_reply [OF this, of True] "0.prems"(4)
  have "is_on w = Some (Inr True, exchanged COMMANDS_get_source w)"
    by simp
  then show ?case
    by (simp add: n io_bind_def io_return_def)
next
  case (Suc k)
  then obtain m where n: "n = Suc m" and km: "k < m"
    by (cases n) auto
  have "connect_ok w"
    using Suc.prems(1) by (simp add: connect_ok_def)
  moreover have "power_reply False (read_script w (read_n w))"
    using Suc.prems(3) by (metis add.right_neutral zero_less_Suc)
  ultimately have off: "is_on w = Some (Inr False, exchanged COMMANDS_get_source w)"
    by (rule is_on_power_reply)
  have c: "\<forall>j. conn_script (poll_step w) j = ConnOk"
    using Suc.prems(1) by simp
  have r: "\<forall>i<k. power_reply False (read_script (poll_step w) (read_n (poll_step w) + i))"
    using Suc.prems(3) by auto
  have l: "power_reply True (read_script (poll_step w) (read_n (poll_step w) + k))"
    using Suc.prems(4) by simp
  from Suc.IH [OF c km r l]
  have "turn_on_poll m (poll_step w)
          = Some (Inr (), exchanged COMMANDS_get_source ((poll_step ^^ k) (poll_step w)))" .
  moreover have "turn_on_poll n w = turn_on_poll m (poll_step w)"
    using off by (simp add: n io_bind_def poll_step_def)
  ultimately show ?case
    by (simp add: funpow_swap1)
qed

lemma turn_off_poll_converges:
  assumes "\<forall>j. conn_script w j = ConnOk" and "k < n"
    and "\<forall>i<k. power_reply True (read_script w (read_n w + i))"
    and "power_reply False (read_script w (read_n w + k))"
  shows "turn_off_poll n w = Some (Inr (), exchanged COMMANDS_get_source ((poll_step ^^ k) w))"
  using assms
proof (induction k arbitrary: n w)
  case 0
  then obtain m where n: "n = Suc m"
    by (cases n) auto
  have "connect_ok w"
    using "0.prems"(1) by (simp add: connect_ok_def)
  from is_on_power_reply [OF this, of False] "0.prems"(4)
  have "is_on w = Some (Inr False, exchanged COMMANDS_get_source w)"
    by simp
  then show ?case
    by (simp add: n io_bind_def io_return_def)
next
  case (Suc k)
  then obtain m where n: "n = Suc m" and km: "k < m"
    by (cases n) auto
  have "connect_ok w"
    using Suc.prems(1) by (simp add: connect_ok_def)
  moreover have "power_reply True (read_script w (read_n w))"
    using Suc.prems(3) by (metis add.right_neutral zero_less_Suc)
  ultimately have on: "is_on w = Some (Inr True, exchanged COMMANDS_get_source w)"
    by (rule is_on_power_reply)
  have c: "\<forall>j. conn_script (poll_step w) j = ConnOk"
    using Suc.prems(1) by simp
  have r: "\<forall>i<k. power_reply True (read_script (poll_step w) (read_n (poll_step w) + i))"
    using Suc.prems(3) by auto
  have l: "power_reply False (read_script (poll_step w) (read_n (poll_step w) + k))"
    using Suc.prems(4) by simp
  from Suc.IH [OF c km r l]
  have "turn_off_poll m (poll_step w)
          = Some (Inr (), exchanged COMMANDS_get_source ((poll_step ^^ k) (poll_step w)))" .
  moreover have "turn_off_poll n w = turn_off_poll m (poll_step w)"
    using on by (simp add: n io_bind_def poll_step_def)
  ultimately show ?case
    by (simp add: funpow_swap1)
qed

lemma poll_steps_read_n: "read_n ((poll_step ^^ k) w) = read_n w + k"
  by (induction k arbitrary: w) (simp_all add: funpow_swap1)

lemma turn_on_poll_exhausts:
  assumes "\<forall>j. conn_script w j = ConnOk"
    and "\<forall>i<n. power_reply False (read_script w (read_n w + i))"
  shows "turn_on_poll n w = Some (Inr (), (poll_step ^^ n) w)"
  using assms
proof (induction n arbitrary: w)
  case 0
  then show ?case
    by (simp add: io_return_def)
next
  case (Suc n)
  have "connect_ok w"
    using Suc.prems(1) by (simp add: connect_ok_def)
  moreover have "power_reply False (read_script w (read_n w))"
    using Suc.prems(2) by (metis add.right_neutral zero_less_Suc)
  ultimately have off: "is_on w = Some (Inr False, exchanged COMMANDS_get_source w)"
    by (rule is_on_power_reply)
  have c: "\<forall>j. conn_script (poll_step w) j = ConnOk"
    using Suc.prems(1) by simp
  have r: "\<forall>i<n. power_reply False (read_script (poll_step w) (read_n (poll_step w) + i))"
    using Suc.prems(2) by auto
  from Suc.IH [OF c r]
  have "turn_on_poll n (poll_step w) = Some (Inr (), (poll_step ^^ n) (poll_step w))" .
  moreover have "turn_on_poll (Suc n) w = turn_on_poll n (poll_step w)"
    using off by (simp add: io_bind_def poll_step_def)
  ultimately show ?case
    by (simp add: funpow_swap1)
qed

lemma turn_off_poll_exhausts:
  assumes "\<forall>j. conn_script w j = ConnOk"
    and "\<forall>i<n. power_reply True (read_script w (read_n w + i))"
  shows "turn_off_poll n w = Some (Inr (), (poll_step ^^ n) w)"
  using assms
proof (induction n arbitrary: w)
  case 0
  then show ?case
    by (simp add: io_return_def)
next
  case (Suc n)
  have "connect_ok w"
    using Suc.prems(1) by (simp add: connect_ok_def)
  moreover have "power_reply True (read_script w (read_n w))"
    using Suc.prems(2) by (metis add.right_neutral zero_less_Suc)
  ultimately have on: "is_on w = Some (Inr True, exchanged COMMANDS_get_source w)"
    by (rule is_on_power_reply)
  have c: "\<forall>j. conn_script (poll_step w) j = ConnOk"
    using Suc.prems(1) by simp
  have r: "\<forall>i<n. power_reply True (read_script (poll_step w) (read_n (poll_step w) + i))"
    using Suc.prems(2) by auto
  from Suc.IH [OF c r]
  have "turn_off_poll n (poll_step w) = Some (Inr (), (poll_step ^^ n) (poll_step w))" .
  moreover have "turn_off_poll (Suc n) w = turn_off_poll n (poll_step w)"
    using on by (simp add: io_bind_def poll_step_def)
  ultimately show ?case
    by (simp add: funpow_swap1)
qed

lemma frame_off: "parse_response [71, 48, 128] (take 100 [82, 48, 129, 138, 0])
                    = Inr (Some [82, 48, 129, 138, 0])"
  by code_simp

lemma power_reply_on: "power_reply True (Data [82, 48, 129, 10, 0])"
  by code_simp

lemma power_reply_off: "power_reply False (Data [82, 48, 129, 138, 0])"
  by code_simp

lemma aux_response_off:
  "map_of INPUT_SOURCES_RESPONSE (138 mod 128) = Some (''Aux'', Some 20, ''L/R'')"
  by (simp add: INPUT_SOURCES_RESPONSE_eq)

lemma aux_code_20_LR:
  "source_code ''Aux'' (standby_time speaker_20_LR) (inverse_speaker_mode speaker_20_LR) = Inr 10"
  using aux_code by (simp add: speaker_20_LR_def)

lemma world_reads:
  "read_script (fresh cs (script xs d)) = script xs d"
  "read_n (fresh cs rs) = 0"
  "conn_script (fresh cs rs) = cs"
  "connect_ok (fresh (\<lambda>k. ConnOk) rs)"
  by (simp_all add: fresh_def connect_ok_def)

text \<open>
  The claim C6 as it is written fails at its first part: when the speaker is already
  on, \<open>turn_on\<close> still writes the source query \<open>0x47 0x30 0x80\<close> to the socket,
  since the power state is read from the speaker.
\<close>

theorem turn_on_already_on_counterexample:
  "map_option (\<lambda>(r, w). (r, wire w))
     (turn_on \<lparr>volume_step = 1 / 20, maximum_volume = 1, standby_time = Some 20,
               inverse_speaker_mode = False\<rparr> None on_world)
     = Some (Inr (), [[71, 48, 128]]) \<and>
   map_option (\<lambda>(r, w). wire w)
     (turn_on \<lparr>volume_step = 1 / 20, maximum_volume = 1, standby_time = Some 20,
               inverse_speaker_mode = False\<rparr> None on_world)
     \<noteq> Some []"
  by code_simp

text \<open>
  Claim C6, amended. Let every connection attempt succeed. \<open>turn_on\<close> and
  \<open>turn_off\<close> first query the state. When the speaker is already in the target power
  state they return after that one query, without sending a set command. Otherwise they
  call \<open>set_source\<close> with the given or current source and the desired power intent,
  and then poll the power state, sleeping one second after each poll that does not show
  the target state: when the \<open>k\<close> first polls (\<open>k < 20\<close>) do not show it and the
  next one does, they return after \<open>k + 1\<close> polls and \<open>k\<close> sleeps of one second.
  When none of the first 20 polls shows the target state, they end after exactly 20
  polls and 20 sleeps of one second: no further poll is made.
\<close>

theorem turn_on_off_polling:
  assumes "\<forall>j. conn_script w j = ConnOk"
  shows
    "(power_reply True (read_script w (read_n w)) \<longrightarrow>
        turn_on spk src w = Some (Inr (), exchanged COMMANDS_get_source w)) \<and>
     (power_reply False (read_script w (read_n w)) \<longrightarrow>
        turn_off spk w = Some (Inr (), exchanged COMMANDS_get_source w)) \<and>
     (\<forall>st w1 w2 k.
        get_state w = Some (Inr st, w1) \<and> \<not> state_is_on st \<and>
        set_source spk (py_or src (state_source st)) ''on'' w1 = Some (Inr (), w2) \<and>
        (\<forall>j. conn_script w2 j = ConnOk) \<and> k < 20 \<and>
        (\<forall>i<k. power_reply False (read_script w2 (read_n w2 + i))) \<and>
        power_reply True (read_script w2 (read_n w2 + k)) \<longrightarrow>
        turn_on spk src w
          = Some (Inr (), exchanged COMMANDS_get_source ((poll_step ^^ k) w2)) \<and>
        trace (exchanged COMMANDS_get_source ((poll_step ^^ k) w2))
          = trace w2 @ concat (replicate k [Write COMMANDS_get_source, Sleep 1])
              @ [Write COMMANDS_get_source]) \<and>
     (\<forall>st w1 w2 k.
        get_state w = Some (Inr st, w1) \<and> state_is_on st \<and>
        set_source spk (state_source st) ''off'' w1 = Some (Inr (), w2) \<and>
        (\<forall>j. conn_script w2 j = ConnOk) \<and> k < 20 \<and>
        (\<forall>i<k. power_reply True (read_script w2 (read_n w2 + i))) \<and>
        power_reply False (read_script w2 (read_n w2 + k)) \<longrightarrow>
        turn_off spk w
          = Some (Inr (), exchanged COMMANDS_get_source ((poll_step ^^ k) w2)) \<and>
        trace (exchanged COMMANDS_get_source ((poll_step ^^ k) w2))
          = trace w2 @ concat (replicate k [Write COMMANDS_get_source, Sleep 1])
              @ [Write COMMANDS_get_source]) \<and>
     (\<forall>st w1 w2.
        get_state w = Some (Inr st, w1) \<and> \<not> state_is_on st \<and>
        set_source spk (py_or src (state_source st)) ''on'' w1 = Some (Inr (), w2) \<and>
        (\<forall>j. conn_script w2 j = ConnOk) \<and>
        (\<forall>i<20. power_reply False (read_script w2 (read_n w2 + i))) \<longrightarrow>
        (\<exists>r. turn_on spk src w = Some (r, (poll_step ^^ 20) w2)) \<and>
        read_n ((poll_step ^^ 20) w2) = read_n w2 + 20 \<and>
        trace ((poll_step ^^ 20) w2)
          = trace w2 @ concat (replicate 20 [Write COMMANDS_get_source, Sleep 1])) \<and>
     (\<forall>st w1 w2.
        get_state w = Some (Inr st, w1) \<and> state_is_on st \<and>
        set_source spk (state_source st) ''off'' w1 = Some (Inr (), w2) \<and>
        (\<forall>j. conn_script w2 j = ConnOk) \<and>
        (\<forall>i<20. power_reply True (read_script w2 (read_n w2 + i))) \<longrightarrow>
        (\<exists>r. turn_off spk w = Some (r, (poll_step ^^ 20) w2)) \<and>
        read_n ((poll_step ^^ 20) w2) = read_n w2 + 20 \<and>
        trace ((poll_step ^^ 20) w2)
          = trace w2 @ concat (replicate 20 [Write COMMANDS_get_source, Sleep 1]))"
proof (intro conjI impI allI)
  assume "power_reply True (read_script w (read_n w))"
  moreover have "connect_ok w"
    using assms by (simp add: connect_ok_def)
  ultimately obtain st where
    "get_state w = Some (Inr st, exchanged COMMANDS_get_source w)" "state_is_on st"
    by (blast dest: get_state_power_reply)
  then show "turn_on spk src w = Some (Inr (), exchanged COMMANDS_get_source w)"
    by (simp add: turn_on_def io_bind_def io_return_def)
next
  assume "power_reply False (read_script w (read_n w))"
  moreover have "connect_ok w"
    using assms by (simp add: connect_ok_def)
  ultimately obtain st where
    "get_state w = Some (Inr st, exchanged COMMANDS_get_source w)" "\<not> state_is_on st"
    by (blast dest: get_state_power_reply)
  then show "turn_off spk w = Some (Inr (), exchanged COMMANDS_get_source w)"
    by (simp add: turn_off_def io_bind_def io_return_def)
next
  fix st w1 w2 k
  assume a: "get_state w = Some (Inr st, w1) \<and> \<not> state_is_on st \<and>
        set_source spk (py_or src (state_source st)) ''on'' w1 = Some (Inr (), w2) \<and>
        (\<forall>j. conn_script w2 j = ConnOk) \<and> k < 20 \<and>
        (\<forall>i<k. power_reply False (read_script w2 (read_n w2 + i))) \<and>
        power_reply True (read_script w2 (read_n w2 + k))"
  then have "turn_on spk src w = turn_on_poll 20 w2"
    by (simp add: turn_on_def io_bind_def)
  moreover have "turn_on_poll 20 w2
      = Some (Inr (), exchanged COMMANDS_get_source ((poll_step ^^ k) w2))"
    using a by (intro turn_on_poll_converges) simp_all
  ultimately show "turn_on spk src w
      = Some (Inr (), exchanged COMMANDS_get_source ((poll_step ^^ k) w2))"
    by simp
  show "trace (exchanged COMMANDS_get_source ((poll_step ^^ k) w2))
          = trace w2 @ concat (replicate k [Write COMMANDS_get_source, Sleep 1])
              @ [Write COMMANDS_get_source]"
    by (simp add: poll_steps_trace)
next
  fix st w1 w2 k
  assume a: "get_state w = Some (Inr st, w1) \<and> state_is_on st \<and>
        set_source spk (state_source st) ''off'' w1 = Some (Inr (), w2) \<and>
        (\<forall>j. conn_script w2 j = ConnOk) \<and> k < 20 \<and>
        (\<forall>i<k. power_reply True (read_script w2 (read_n w2 + i))) \<and>
        power_reply False (read_script w2 (read_n w2 + k))"
  then have "turn_off spk w = turn_off_poll 20 w2"
    by (simp add: turn_off_def io_bind_def)
  moreover have "turn_off_poll 20 w2
      = Some (Inr (), exchanged COMMANDS_get_source ((poll_step ^^ k) w2))"
    using a by (intro turn_off_poll_converges) simp_all
  ultimately show "turn_off spk w
      = Some (Inr (), exchanged COMMANDS_get_source ((poll_step ^^ k) w2))"
    by simp
  show "trace (exchanged COMMANDS_get_source ((poll_step ^^ k) w2))
          = trace w2 @ concat (replicate k [Write COMMANDS_get_source, Sleep 1])
              @ [Write COMMANDS_get_source]"
    by (simp add: poll_steps_trace)
next
  fix st w1 w2
  assume a: "get_state w = Some (Inr st, w1) \<and> \<not> state_is_on st \<and>
        set_source spk (py_or src (state_source st)) ''on'' w1 = Some (Inr (), w2) \<and>
        (\<forall>j. conn_script w2 j = ConnOk) \<and>
        (\<forall>i<20. power_reply False (read_script w2 (read_n w2 + i)))"
  then have "turn_on spk src w = turn_on_poll 20 w2"
    by (simp add: turn_on_def io_bind_def)
  moreover have "turn_on_poll 20 w2 = Some (Inr (), (poll_step ^^ 20) w2)"
    using a by (intro turn_on_poll_exhausts) simp_all
  ultimately show "\<exists>r. turn_on spk src w = Some (r, (poll_step ^^ 20) w2)"
    by simp
  show "read_n ((poll_step ^^ 20) w2) = read_n w2 + 20"
    by (rule poll_steps_read_n)
  show "trace ((poll_step ^^ 20) w2)
          = trace w2 @ concat (replicate 20 [Write COMMANDS_get_source, Sleep 1])"
    by (rule poll_steps_trace)
next
  fix st w1 w2
  assume a: "get_state w = Some (Inr st, w1) \<and> state_is_on st \<and>
        set_source spk (state_source st) ''off'' w1 = Some (Inr (), w2) \<and>
        (\<forall>j. conn_script w2 j = ConnOk) \<and>
        (\<forall>i<20. power_reply True (read_script w2 (read_n w2 + i)))"
  then have "turn_off spk w = turn_off_poll 20 w2"
    by (simp add: turn_off_def io_bind_def)
  moreover have "turn_off_poll 20 w2 = Some (Inr (), (poll_step ^^ 20) w2)"
    using a by (intro turn_off_poll_exhausts) simp_all
  ultimately show "\<exists>r. turn_off spk w = Some (r, (poll_step ^^ 20) w2)"
    by simp
  show "read_n ((poll_step ^^ 20) w2) = read_n w2 + 20"
    by (rule poll_steps_read_n)
  show "trace ((poll_step ^^ 20) w2)
          = trace w2 @ concat (replicate 20 [Write COMMANDS_get_source, Sleep 1])"
    by (rule poll_steps_trace)
qed

theorem turn_on_off_polling_witness:
  "turn_on speaker_20_LR None on_world = Some (Inr (), exchanged [71, 48, 128] on_world) \<and>
   turn_off speaker_20_LR off_world = Some (Inr (), exchanged [71, 48, 128] off_world) \<and>
   turn_on speaker_20_LR None off_world
     = Some (Inr (), exchanged [71, 48, 128]
         ((poll_step ^^ 2)
            (exchanged [71, 48, 128] (exchanged [83, 48, 129, 10]
               (exchanged [71, 48, 128] off_world))))) \<and>
   turn_off speaker_20_LR on_world
     = Some (Inr (), exchanged [71, 48, 128]
         ((poll_step ^^ 1)
            (exchanged [71, 48, 128] (exchanged [83, 48, 129, 138]
               (exchanged [71, 48, 128] on_world))))) \<and>
   (\<exists>r. turn_on speaker_20_LR None never_on_world
          = Some (r, (poll_step ^^ 20)
              (exchanged [71, 48, 128] (exchanged [83, 48, 129, 10]
                 (exchanged [71, 48, 128] never_on_world))))) \<and>
   (\<exists>r. turn_off speaker_20_LR always_on_world
          = Some (r, (poll_step ^^ 20)
              (exchanged [71, 48, 128] (exchanged [83, 48, 129, 138]
                 (exchanged [71, 48, 128] always_on_world)))))"
proof -
  let ?g = "[71, 48, 128] :: bytes"
  let ?spk = speaker_20_LR
  have con: "\<forall>j. conn_script on_world j = ConnOk"
    and coff: "\<forall>j. conn_script off_world j = ConnOk"
    by (simp_all add: on_world_def off_world_def world_reads)
  note on = turn_on_off_polling [OF con, of ?spk None]
  note off = turn_on_off_polling [OF coff, of ?spk None]
  have r_on: "read_script on_world (read_n on_world) = Data [82, 48, 129, 10, 0]"
    and r_off: "read_script off_world (read_n off_world) = Data [82, 48, 129, 138, 0]"
    by (simp_all add: on_world_def off_world_def world_reads script_simps)
  have 1: "turn_on ?spk None on_world = Some (Inr (), exchanged ?g on_world)"
    using on r_on power_reply_on by (simp add: get_source_cmd)
  have 2: "turn_off ?spk off_world = Some (Inr (), exchanged ?g off_world)"
    using off r_off power_reply_off by (simp add: get_source_cmd)

  let ?f1 = "exchanged ?g off_world"
  let ?f2 = "exchanged ?g (exchanged [83, 48, 129, 10] ?f1)"
  have gs_off: "get_state off_world = Some (Inr (State ''Aux'' False (Some 20) ''L/R''), ?f1)"
    using get_state_ok [OF _ r_off _ _ aux_response_off, of "[82, 48, 129, 138, 0]"] frame_off
    by (simp add: get_source_cmd off_world_def world_reads py_index_def)
  have ss_off: "set_source ?spk (py_or None ''Aux'') ''on'' ?f1 = Some (Inr (), ?f2)"
    using set_source_ok [OF aux_in_sources aux_code_20_LR _ _ acknowledged_ack _ _ _
        aux_response_off, of ?f1 "[82, 48, 129, 138, 0]" "[82, 48, 129, 138, 0]" "''on''"]
      frame_off
    by (simp add: get_source_cmd off_world_def world_reads py_index_def py_or_def script_def)
  have polls_off:
    "(\<forall>j. conn_script ?f2 j = ConnOk) \<and> (2::nat) < 20 \<and>
     (\<forall>i<2. power_reply False (read_script ?f2 (read_n ?f2 + i))) \<and>
     power_reply True (read_script ?f2 (read_n ?f2 + 2))"
    using power_reply_on power_reply_off
    by (simp add: off_world_def world_reads script_def numeral_2_eq_2 less_Suc_eq
          conj_disj_distribR all_conj_distrib)
  have 3: "turn_on ?spk None off_world
             = Some (Inr (), exchanged ?g ((poll_step ^^ 2) ?f2))"
    using off [THEN conjunct2, THEN conjunct2, THEN conjunct1, rule_format,
        of "State ''Aux'' False (Some 20) ''L/R''" ?f1 ?f2 2] gs_off ss_off polls_off
    by (simp add: get_source_cmd)

  let ?n1 = "exchanged ?g on_world"
  let ?n2 = "exchanged ?g (exchanged [83, 48, 129, 138] ?n1)"
  have gs_on: "get_state on_world = Some (Inr (State ''Aux'' True (Some 20) ''L/R''), ?n1)"
    using get_state_ok [OF _ r_on _ _ aux_response, of "[82, 48, 129, 10, 0]"] aux_frame
    by (simp add: get_source_cmd on_world_def world_reads py_index_def)
  have ss_on: "set_source ?spk ''Aux'' ''off'' ?n1 = Some (Inr (), ?n2)"
    using set_source_ok [OF aux_in_sources aux_code_20_LR _ _ acknowledged_ack _ _ _
        aux_response, of ?n1 "[82, 48, 129, 10, 0]" "[82, 48, 129, 10, 0]" "''off''"]
      aux_frame
    by (simp add: get_source_cmd on_world_def world_reads py_index_def script_def)
  have polls_on:
    "(\<forall>j. conn_script ?n2 j = ConnOk) \<and> (1::nat) < 20 \<and>
     (\<forall>i<1. power_reply True (read_script ?n2 (read_n ?n2 + i))) \<and>
     power_reply False (read_script ?n2 (read_n ?n2 + 1))"
    using power_reply_on power_reply_off
    by (simp add: on_world_def world_reads script_def)
  have 4: "turn_off ?spk on_world
             = Some (Inr (), exchanged ?g ((poll_step ^^ 1) ?n2))"
    using on [THEN conjunct2, THEN conjunct2, THEN conjunct2, THEN conjunct1, rule_format,
        of "State ''Aux'' True (Some 20) ''L/R''" ?n1 ?n2 1] gs_on ss_on polls_on
    by (simp add: get_source_cmd)
  have cnever: "\<forall>j. conn_script never_on_world j = ConnOk"
    and calways: "\<forall>j. conn_script always_on_world j = ConnOk"
    by (simp_all add: never_on_world_def always_on_world_def world_reads)
  note never = turn_on_off_polling [OF cnever, of ?spk None]
  note always = turn_on_off_polling [OF calways, of ?spk None]
  have r_never: "read_script never_on_world (read_n never_on_world) = Data [82, 48, 129, 138, 0]"
    and r_always: "read_script always_on_world (read_n always_on_world) = Data [82, 48, 129, 10, 0]"
    by (simp_all add: never_on_world_def always_on_world_def world_reads script_simps)

  let ?e1 = "exchanged ?g never_on_world"
  let ?e2 = "exchanged ?g (exchanged [83, 48, 129, 10] ?e1)"
  have gs_never:
    "get_state never_on_world = Some (Inr (State ''Aux'' False (Some 20) ''L/R''), ?e1)"
    using get_state_ok [OF _ r_never _ _ aux_response_off, of "[82, 48, 129, 138, 0]"] frame_off
    by (simp add: get_source_cmd never_on_world_def world_reads py_index_def)
  have ss_never: "set_source ?spk (py_or None ''Aux'') ''on'' ?e1 = Some (Inr (), ?e2)"
    using set_source_ok [OF aux_in_sources aux_code_20_LR _ _ acknowledged_ack _ _ _
        aux_response_off, of ?e1 "[82, 48, 129, 138, 0]" "[82, 48, 129, 138, 0]" "''on''"]
      frame_off
    by (simp add: get_source_cmd never_on_world_def world_reads py_index_def py_or_def
          script_def)
  have polls_never:
    "(\<forall>j. conn_script ?e2 j = ConnOk) \<and>
     (\<forall>i<20. power_reply False (read_script ?e2 (read_n ?e2 + i)))"
    using power_reply_off
    by (simp add: never_on_world_def world_reads script_def)
  have 5: "\<exists>r. turn_on ?spk None never_on_world = Some (r, (poll_step ^^ 20) ?e2)"
    using never [THEN conjunct2, THEN conjunct2, THEN conjunct2, THEN conjunct2,
        THEN conjunct1, rule_format, of "State ''Aux'' False (Some 20) ''L/R''" ?e1 ?e2]
      gs_never ss_never polls_never
    by simp

  let ?a1 = "exchanged ?g always_on_world"
  let ?a2 = "exchanged ?g (exchanged [83, 48, 129, 138] ?a1)"
  have gs_always:
    "get_state always_on_world = Some (Inr (State ''Aux'' True (Some 20) ''L/R''), ?a1)"
    using get_state_ok [OF _ r_always _ _ aux_response, of "[82, 48, 129, 10, 0]"] aux_frame
    by (simp add: get_source_cmd always_on_world_def world_reads py_index_def)
  have ss_always: "set_source ?spk ''Aux'' ''off'' ?a1 = Some (Inr (), ?a2)"
    using set_source_ok [OF aux_in_sources aux_code_20_LR _ _ acknowledged_ack _ _ _
        aux_response, of ?a1 "[82, 48, 129, 10, 0]" "[82, 48, 129, 10, 0]" "''off''"]
      aux_frame
    by (simp add: get_source_cmd always_on_world_def world_reads py_index_def script_def)
  have polls_always:
    "(\<forall>j. conn_script ?a2 j = ConnOk) \<and>
     (\<forall>i<20. power_reply True (read_script ?a2 (read_n ?a2 + i)))"
    using power_reply_on
    by (simp add: always_on_world_def world_reads script_def)
  have 6: "\<exists>r. turn_off ?spk always_on_world = Some (r, (poll_step ^^ 20) ?a2)"
    using always [THEN conjunct2, THEN conjunct2, THEN conjunct2, THEN conjunct2,
        THEN conjunct2, rule_format, of "State ''Aux'' True (Some 20) ''L/R''" ?a1 ?a2]
      gs_always ss_always polls_always
    by simp
  from 1 2 3 4 5 6 show ?thesis
    by simp
qed


end
